theory Spec2Isabelle
  imports Complex_Main "HOL-Library.Log_Nat"
begin

unbundle bit_operations_syntax

section \<open>The controller bridge of remote-pad.ts\<close>

text \<open>
  A shallow embedding of the controller-input bridge (\<^verbatim>\<open>src/remote-pad.ts\<close>): the axis
  calibration (\<^verbatim>\<open>detectAxisLayout\<close>, \<^verbatim>\<open>getFallbackRanges\<close>, \<^verbatim>\<open>normalize\<close>), the evdev
  reader (\<^verbatim>\<open>startEvdevReader\<close> with its stream handlers, \<^verbatim>\<open>stopEvdevReader\<close>), the console
  connection (\<^verbatim>\<open>createPS4Connection\<close>) and the slot endpoints \<^verbatim>\<open>/api/assign\<close> and
  \<^verbatim>\<open>/api/unassign\<close> with the periodic controller scan.

  JavaScript numbers that hold integers are modelled as \<open>nat\<close> or \<open>int\<close>; the bitwise
  operators of JavaScript work on 32-bit two's complement values and agree with the bit
  operations of \<open>int\<close> on them. The two floating-point operations of \<^verbatim>\<open>normalize\<close> are
  modelled with the rounding of IEEE binary64. Logging and the broadcasts to the browser
  observers do not touch any of the state below and are left out.
\<close>

subsection \<open>Evdev constants\<close>

definition EVENT_SIZE :: nat where "EVENT_SIZE = 24"

definition EV_SYN :: nat where "EV_SYN = 0x00"
definition EV_KEY :: nat where "EV_KEY = 0x01"
definition EV_ABS :: nat where "EV_ABS = 0x03"

definition BTN_SOUTH :: nat where "BTN_SOUTH = 0x130"
definition BTN_EAST :: nat where "BTN_EAST = 0x131"
definition BTN_C :: nat where "BTN_C = 0x132"
definition BTN_NORTH :: nat where "BTN_NORTH = 0x133"
definition BTN_WEST :: nat where "BTN_WEST = 0x134"
definition BTN_TL :: nat where "BTN_TL = 0x136"
definition BTN_TR :: nat where "BTN_TR = 0x137"
definition BTN_TL2 :: nat where "BTN_TL2 = 0x138"
definition BTN_TR2 :: nat where "BTN_TR2 = 0x139"
definition BTN_SELECT :: nat where "BTN_SELECT = 0x13a"
definition BTN_START :: nat where "BTN_START = 0x13b"
definition BTN_MODE :: nat where "BTN_MODE = 0x13c"
definition BTN_THUMBL :: nat where "BTN_THUMBL = 0x13d"
definition BTN_THUMBR :: nat where "BTN_THUMBR = 0x13e"
definition BTN_DPAD_UP :: nat where "BTN_DPAD_UP = 0x220"
definition BTN_DPAD_DOWN :: nat where "BTN_DPAD_DOWN = 0x221"
definition BTN_DPAD_LEFT :: nat where "BTN_DPAD_LEFT = 0x222"
definition BTN_DPAD_RIGHT :: nat where "BTN_DPAD_RIGHT = 0x223"

definition ABS_X :: nat where "ABS_X = 0x00"
definition ABS_Y :: nat where "ABS_Y = 0x01"
definition ABS_Z :: nat where "ABS_Z = 0x02"
definition ABS_RX :: nat where "ABS_RX = 0x03"
definition ABS_RY :: nat where "ABS_RY = 0x04"
definition ABS_RZ :: nat where "ABS_RZ = 0x05"
definition ABS_GAS :: nat where "ABS_GAS = 0x09"
definition ABS_BRAKE :: nat where "ABS_BRAKE = 0x0a"
definition ABS_HAT0X :: nat where "ABS_HAT0X = 0x10"
definition ABS_HAT0Y :: nat where "ABS_HAT0Y = 0x11"

subsection \<open>The button bitmask of the console\<close>

definition ORBIS_SHARE :: int where "ORBIS_SHARE = 0x0001"
definition ORBIS_L3 :: int where "ORBIS_L3 = 0x0002"
definition ORBIS_R3 :: int where "ORBIS_R3 = 0x0004"
definition ORBIS_OPTIONS :: int where "ORBIS_OPTIONS = 0x0008"
definition ORBIS_UP :: int where "ORBIS_UP = 0x0010"
definition ORBIS_RIGHT :: int where "ORBIS_RIGHT = 0x0020"
definition ORBIS_DOWN :: int where "ORBIS_DOWN = 0x0040"
definition ORBIS_LEFT :: int where "ORBIS_LEFT = 0x0080"
definition ORBIS_L2 :: int where "ORBIS_L2 = 0x0100"
definition ORBIS_R2 :: int where "ORBIS_R2 = 0x0200"
definition ORBIS_L1 :: int where "ORBIS_L1 = 0x0400"
definition ORBIS_R1 :: int where "ORBIS_R1 = 0x0800"
definition ORBIS_TRIANGLE :: int where "ORBIS_TRIANGLE = 0x1000"
definition ORBIS_CIRCLE :: int where "ORBIS_CIRCLE = 0x2000"
definition ORBIS_CROSS :: int where "ORBIS_CROSS = 0x4000"
definition ORBIS_SQUARE :: int where "ORBIS_SQUARE = 0x8000"
definition ORBIS_TOUCHPAD :: int where "ORBIS_TOUCHPAD = 0x100000"

definition BUTTON_MAP :: "nat \<rightharpoonup> int" where
  "BUTTON_MAP = map_of
     [(BTN_SOUTH, ORBIS_CROSS), (BTN_EAST, ORBIS_CIRCLE),
      (BTN_WEST, ORBIS_TRIANGLE), (BTN_NORTH, ORBIS_SQUARE),
      (BTN_TL, ORBIS_L1), (BTN_TR, ORBIS_R1),
      (BTN_TL2, ORBIS_L2), (BTN_TR2, ORBIS_R2),
      (BTN_SELECT, ORBIS_SHARE), (BTN_START, ORBIS_OPTIONS),
      (BTN_MODE, ORBIS_TOUCHPAD),
      (BTN_THUMBL, ORBIS_L3), (BTN_THUMBR, ORBIS_R3),
      (BTN_DPAD_UP, ORBIS_UP), (BTN_DPAD_DOWN, ORBIS_DOWN),
      (BTN_DPAD_LEFT, ORBIS_LEFT), (BTN_DPAD_RIGHT, ORBIS_RIGHT)]"

subsection \<open>Types\<close>

text \<open>\<^verbatim>\<open>absCaps\<close> is a bigint parsed from a hexadecimal string.\<close>

record DetectedDevice =
  name :: string
  eventPath :: string
  vendor :: string
  product :: string
  uniq :: string
  bus :: string
  absCaps :: int

text \<open>The fields \<^verbatim>\<open>min\<close> and \<^verbatim>\<open>max\<close> of the source.\<close>

record AxisRange =
  min_r :: int
  max_r :: int

record PadState =
  buttons :: int
  lx :: int
  ly :: int
  rx :: int
  ry :: int
  l2 :: int
  r2 :: int

text \<open>
  A slot refers to its read stream by a handle, the index of the stream object in the
  list of all streams ever created (see \<open>bridge\<close> below). The axis-range map is kept as
  the list of its entries in insertion order; its keys are distinct.
\<close>

record PadSlot =
  device :: "DetectedDevice option"
  state :: PadState
  stream :: "nat option"
  axisRanges :: "(nat \<times> AxisRange) list"
  active :: bool

definition freshPadState :: PadState where
  "freshPadState = \<lparr>buttons = 0, lx = 128, ly = 128, rx = 128, ry = 128, l2 = 0, r2 = 0\<rparr>"

subsection \<open>Axis ranges\<close>

datatype AxisLayout = standard | gas_brake

definition detectAxisLayout :: "DetectedDevice \<Rightarrow> AxisLayout" where
  "detectAxisLayout dev =
     (let hasRX = (absCaps dev AND push_bit ABS_RX 1 \<noteq> 0);
          hasGas = (absCaps dev AND push_bit ABS_GAS 1 \<noteq> 0)
      in if \<not> hasRX \<and> hasGas then gas_brake else standard)"

text \<open>
  What the operating system answers to \<^verbatim>\<open>detectAxisRanges\<close>: whether the device file
  opens, whether the foreign-function library loads, and for each axis the minimum and
  maximum that the \<^verbatim>\<open>EVIOCGABS\<close> ioctl reports (\<open>None\<close> when it returns a negative
  value).
\<close>

record os_env =
  openSync_ok :: "string \<Rightarrow> bool"
  ffi_ok :: bool
  ioctl_EVIOCGABS :: "string \<Rightarrow> nat \<Rightarrow> AxisRange option"

definition detectAxisRanges :: "os_env \<Rightarrow> string \<Rightarrow> (nat \<times> AxisRange) list" where
  "detectAxisRanges env devicePath =
     (let axes = [ABS_X, ABS_Y, ABS_Z, ABS_RX, ABS_RY, ABS_RZ, ABS_GAS, ABS_BRAKE,
                  ABS_HAT0X, ABS_HAT0Y]
      in if \<not> openSync_ok env devicePath then []
         else if \<not> ffi_ok env then []
         else List.map_filter
                (\<lambda>axis. map_option (\<lambda>r. (axis, r)) (ioctl_EVIOCGABS env devicePath axis)) axes)"

text \<open>\<^verbatim>\<open>String.prototype.toLowerCase\<close> on the ASCII letters of a vendor id.\<close>

definition toLowerCase :: "string \<Rightarrow> string" where
  "toLowerCase s =
     map (\<lambda>c. let n = (of_char c :: nat) in if 65 \<le> n \<and> n \<le> 90 then char_of (n + 32) else c) s"

definition getFallbackRanges :: "string \<Rightarrow> (nat \<times> AxisRange) list" where
  "getFallbackRanges vend =
     (let isSony = (toLowerCase vend = ''054c'')
      in map (\<lambda>a. (a, if isSony then \<lparr>min_r = 0, max_r = 255\<rparr>
                        else \<lparr>min_r = - 32768, max_r = 32767\<rparr>))
           [ABS_X, ABS_Y, ABS_RX, ABS_RY]
         @ map (\<lambda>a. (a, if isSony then \<lparr>min_r = 0, max_r = 255\<rparr>
                          else \<lparr>min_r = 0, max_r = 1023\<rparr>))
             [ABS_Z, ABS_RZ]
         @ [(ABS_HAT0X, \<lparr>min_r = - 1, max_r = 1\<rparr>),
            (ABS_HAT0Y, \<lparr>min_r = - 1, max_r = 1\<rparr>)])"

subsection \<open>The arithmetic of \<^verbatim>\<open>normalize\<close>\<close>

text \<open>
  JavaScript numbers are IEEE binary64 values. A raw value is a signed 32-bit integer and
  the bounds of a range come from an \<^verbatim>\<open>Int32Array\<close> or from the literals of
  \<^verbatim>\<open>getFallbackRanges\<close>, so the two subtractions of \<^verbatim>\<open>normalize\<close> are exact. The division
  and the multiplication round their exact result to the nearest binary64 value, ties
  to the even mantissa: \<open>double\<close> does that for a rational in the normal range, which
  is where the quotients and products of such operands lie. \<open>ilog2 x\<close> is the binary
  exponent of a positive \<open>x\<close>, and \<open>Math_round\<close> rounds to the nearest integer with ties
  upwards, as \<^verbatim>\<open>Math.round\<close> does.
\<close>

definition pow2 :: "int \<Rightarrow> rat" where
  "pow2 e = (if 0 \<le> e then 2 ^ nat e else 1 / 2 ^ nat (- e))"

definition ilog2 :: "rat \<Rightarrow> int" where
  "ilog2 x = (case quotient_of x of (p, q) \<Rightarrow>
     (let d = bitlen p - bitlen q in if pow2 d \<le> x then d else d - 1))"

definition round_ties_even :: "rat \<Rightarrow> int" where
  "round_ties_even m =
     (let n = \<lfloor>m\<rfloor>; d = m - of_int n
      in if d < 1 / 2 then n else if 1 / 2 < d then n + 1 else if even n then n else n + 1)"

definition double :: "rat \<Rightarrow> rat" where
  "double x =
     (if x = 0 then 0
      else (let u = pow2 (ilog2 \<bar>x\<bar> - 52) in of_int (round_ties_even (x / u)) * u))"

definition Math_round :: "rat \<Rightarrow> int" where
  "Math_round x = \<lfloor>x + 1 / 2\<rfloor>"

definition normalize_axis :: "int \<Rightarrow> AxisRange \<Rightarrow> int" where
  "normalize_axis v r =
     (if max_r r = min_r r then 128
      else max 0 (min 255 (Math_round
             (double (double (of_int (v - min_r r) / of_int (max_r r - min_r r)) * 255)))))"

subsection \<open>The console connection\<close>

text \<open>
  The closure of \<^verbatim>\<open>createPS4Connection\<close>. A socket object records the pad updates
  written to it and whether its \<^verbatim>\<open>close\<close> was called. \<open>reconnectTimer\<close> tells whether
  the variable holds a timer handle; \<open>timer_pending\<close> tells whether the runtime still
  holds the timeout set by \<^verbatim>\<open>scheduleReconnect\<close>, and \<open>connects\<close> counts the calls of
  \<^verbatim>\<open>connect\<close>. The version query (\<^verbatim>\<open>getInfo\<close> with \<^verbatim>\<open>rpcId\<close> and \<^verbatim>\<open>pending\<close>) and the
  status fields \<^verbatim>\<open>state.ps4Connected\<close> and \<^verbatim>\<open>state.ps4Version\<close>, which only the user
  interface reads, are left out.
\<close>

datatype rpc_frame = PadUpdate "int list"

record WebSocket =
  sent :: "rpc_frame list"
  close_called :: bool

record PS4Connection =
  ws :: "WebSocket option"
  open_c :: bool
  reconnectTimer :: bool
  intentionallyClosed :: bool
  timer_pending :: bool
  connects :: nat

definition scheduleReconnect :: "PS4Connection \<Rightarrow> PS4Connection" where
  "scheduleReconnect c =
     (if intentionallyClosed c \<or> reconnectTimer c then c
      else c\<lparr>reconnectTimer := True, timer_pending := True\<rparr>)"

text \<open>\<open>throws\<close> tells whether \<^verbatim>\<open>new WebSocket(url)\<close> raises.\<close>

definition connect :: "bool \<Rightarrow> PS4Connection \<Rightarrow> PS4Connection" where
  "connect throws c =
     (let c1 = c\<lparr>connects := connects c + 1\<rparr>
      in if throws then scheduleReconnect c1
         else c1\<lparr>ws := Some \<lparr>sent = [], close_called = False\<rparr>\<rparr>)"

definition ws_open :: "PS4Connection \<Rightarrow> PS4Connection" where
  "ws_open c = c\<lparr>open_c := True\<rparr>"

definition ws_close :: "PS4Connection \<Rightarrow> PS4Connection" where
  "ws_close c =
     (let c1 = c\<lparr>open_c := False\<rparr>
      in if \<not> intentionallyClosed c1 then scheduleReconnect c1 else c1)"

text \<open>The callback of the timeout; the runtime calls it only while the timeout is pending.\<close>

definition reconnect_timeout :: "bool \<Rightarrow> PS4Connection \<Rightarrow> PS4Connection" where
  "reconnect_timeout throws c =
     (if \<not> timer_pending c then c
      else (let c1 = c\<lparr>timer_pending := False, reconnectTimer := False\<rparr>
            in if \<not> intentionallyClosed c1 then connect throws c1 else c1))"

definition createPS4Connection :: "bool \<Rightarrow> PS4Connection" where
  "createPS4Connection throws =
     connect throws \<lparr>ws = None, open_c = False, reconnectTimer = False,
                     intentionallyClosed = False, timer_pending = False, connects = 0\<rparr>"

text \<open>The frame \<^verbatim>\<open>{method: "u", params: [padIndex, buttons, lx, ly, rx, ry, l2, r2, 0]}\<close>.\<close>

definition update_frame :: "nat \<Rightarrow> PadState \<Rightarrow> rpc_frame" where
  "update_frame padIndex s =
     PadUpdate [int padIndex, buttons s, lx s, ly s, rx s, ry s, l2 s, r2 s, 0]"

definition send :: "PadState \<Rightarrow> nat \<Rightarrow> PS4Connection \<Rightarrow> PS4Connection" where
  "send s padIndex c =
     (if \<not> open_c c then c
      else case ws c of
             None \<Rightarrow> c
           | Some w \<Rightarrow> c\<lparr>ws := Some (w\<lparr>sent := sent w @ [update_frame padIndex s]\<rparr>)\<rparr>)"

definition close :: "PS4Connection \<Rightarrow> PS4Connection" where
  "close c =
     (let c1 = c\<lparr>intentionallyClosed := True\<rparr>;
          c2 = (if reconnectTimer c1 then c1\<lparr>timer_pending := False\<rparr> else c1);
          c3 = c2\<lparr>ws := map_option (\<lambda>w. w\<lparr>close_called := True\<rparr>) (ws c2)\<rparr>
      in c3\<lparr>open_c := False\<rparr>)"

text \<open>What can happen to a connection object, in any order.\<close>

datatype conn_event =
  WsOpen | WsClose | WsError | ReconnectTimeout bool | Send PadState nat | Close

fun conn_step :: "PS4Connection \<Rightarrow> conn_event \<Rightarrow> PS4Connection" where
  "conn_step c WsOpen = ws_open c"
| "conn_step c WsClose = ws_close c"
| "conn_step c WsError = c"
| "conn_step c (ReconnectTimeout throws) = reconnect_timeout throws c"
| "conn_step c (Send s padIndex) = send s padIndex c"
| "conn_step c Close = close c"

definition conn_run :: "PS4Connection \<Rightarrow> conn_event list \<Rightarrow> PS4Connection" where
  "conn_run c es = foldl conn_step c es"

subsection \<open>Global state\<close>

text \<open>
  The handlers that \<^verbatim>\<open>startEvdevReader\<close> installs on a stream close over the slot index,
  the range map and the layout.
\<close>

record EvdevReader =
  padIndex :: nat
  ranges :: "(nat \<times> AxisRange) list"
  layout :: AxisLayout

record ReadStream =
  devicePath :: string
  destroyed :: bool
  reader :: EvdevReader

text \<open>
  The module-level \<^verbatim>\<open>state\<close> object (without the host, the port and the two status
  fields), the variable \<^verbatim>\<open>ps4Connection\<close>, and the stream objects created so far.
  The message counter is a natural number: a JavaScript number counts exactly up to
  \<open>2 ^ 53\<close>, far beyond any run of the bridge.
\<close>

record bridge =
  controllers :: "DetectedDevice list"
  pads :: "PadSlot list"
  msgCount :: nat
  ps4Connection :: "PS4Connection option"
  streams :: "ReadStream list"

definition empty_slot :: PadSlot where
  "empty_slot = \<lparr>device = None, state = freshPadState, stream = None, axisRanges = [],
                  active = False\<rparr>"

definition init_state :: bridge where
  "init_state = \<lparr>controllers = [], pads = [empty_slot, empty_slot, empty_slot, empty_slot],
                  msgCount = 0, ps4Connection = None, streams = []\<rparr>"

subsection \<open>The evdev reader\<close>

text \<open>The expression \<^verbatim>\<open>r ? normalize(value, r) : value\<close>.\<close>

definition axis_value :: "AxisRange option \<Rightarrow> int \<Rightarrow> int" where
  "axis_value r v = (case r of Some rg \<Rightarrow> normalize_axis v rg | None \<Rightarrow> v)"

definition set_l2 :: "int \<Rightarrow> PadState \<Rightarrow> PadState" where
  "set_l2 x s =
     (let s1 = s\<lparr>l2 := x\<rparr>
      in if l2 s1 > 10 then s1\<lparr>buttons := buttons s1 OR ORBIS_L2\<rparr>
         else s1\<lparr>buttons := buttons s1 AND NOT ORBIS_L2\<rparr>)"

definition set_r2 :: "int \<Rightarrow> PadState \<Rightarrow> PadState" where
  "set_r2 x s =
     (let s1 = s\<lparr>r2 := x\<rparr>
      in if r2 s1 > 10 then s1\<lparr>buttons := buttons s1 OR ORBIS_R2\<rparr>
         else s1\<lparr>buttons := buttons s1 AND NOT ORBIS_R2\<rparr>)"

definition key_event :: "nat \<Rightarrow> int \<Rightarrow> PadState \<Rightarrow> PadState" where
  "key_event code v s =
     (case BUTTON_MAP code of
        None \<Rightarrow> s
      | Some btn \<Rightarrow>
          if v \<noteq> 0 then s\<lparr>buttons := buttons s OR btn\<rparr>
          else s\<lparr>buttons := buttons s AND NOT btn\<rparr>)"

text \<open>
  The \<^verbatim>\<open>switch\<close> on the code of an absolute-axis record. The variables \<^verbatim>\<open>dpadX\<close> and
  \<^verbatim>\<open>dpadY\<close> of the closure are written and read in the same case only.
\<close>

definition abs_event ::
  "AxisLayout \<Rightarrow> (nat \<times> AxisRange) list \<Rightarrow> nat \<Rightarrow> int \<Rightarrow> PadState \<Rightarrow> PadState" where
  "abs_event lay rgs code v s =
     (let r = map_of rgs code
      in if code = ABS_X then s\<lparr>lx := axis_value r v\<rparr>
         else if code = ABS_Y then s\<lparr>ly := axis_value r v\<rparr>
         else if code = ABS_RX then s\<lparr>rx := axis_value r v\<rparr>
         else if code = ABS_RY then s\<lparr>ry := axis_value r v\<rparr>
         else if code = ABS_Z then
           (if lay = gas_brake then s\<lparr>rx := axis_value r v\<rparr>
            else set_l2 (axis_value r v) s)
         else if code = ABS_RZ then
           (if lay = gas_brake then s\<lparr>ry := axis_value r v\<rparr>
            else set_r2 (axis_value r v) s)
         else if code = ABS_BRAKE then set_l2 (axis_value r v) s
         else if code = ABS_GAS then set_r2 (axis_value r v) s
         else if code = ABS_HAT0X then
           (let dpadX = v;
                s1 = s\<lparr>buttons := buttons s AND NOT (ORBIS_LEFT OR ORBIS_RIGHT)\<rparr>
            in if dpadX < 0 then s1\<lparr>buttons := buttons s1 OR ORBIS_LEFT\<rparr>
               else if dpadX > 0 then s1\<lparr>buttons := buttons s1 OR ORBIS_RIGHT\<rparr>
               else s1)
         else if code = ABS_HAT0Y then
           (let dpadY = v;
                s1 = s\<lparr>buttons := buttons s AND NOT (ORBIS_UP OR ORBIS_DOWN)\<rparr>
            in if dpadY < 0 then s1\<lparr>buttons := buttons s1 OR ORBIS_UP\<rparr>
               else if dpadY > 0 then s1\<lparr>buttons := buttons s1 OR ORBIS_DOWN\<rparr>
               else s1)
         else s)"

text \<open>One record of the stream: type, code and value.\<close>

record input_event =
  ev_type :: nat
  ev_code :: nat
  ev_value :: int

text \<open>The body of the loop of the data handler, on the state of the reader's slot.\<close>

definition handle_event :: "EvdevReader \<Rightarrow> input_event \<Rightarrow> bridge \<Rightarrow> bridge" where
  "handle_event rd e st =
     (let k = padIndex rd; slot = pads st ! k; s = state slot
      in if ev_type e = EV_KEY then
           st\<lparr>pads := (pads st)[k := slot\<lparr>state := key_event (ev_code e) (ev_value e) s\<rparr>]\<rparr>
         else if ev_type e = EV_ABS then
           st\<lparr>pads := (pads st)[k := slot\<lparr>state :=
                  abs_event (layout rd) (ranges rd) (ev_code e) (ev_value e) s\<rparr>]\<rparr>
         else if ev_type e = EV_SYN then
           st\<lparr>ps4Connection := map_option (send s k) (ps4Connection st),
              msgCount := msgCount st + 1\<rparr>
         else st)"

text \<open>
  A buffer is a list of bytes, each below 256. \<^verbatim>\<open>readUInt16LE\<close> and \<^verbatim>\<open>readInt32LE\<close> are
  called inside the bounds of the buffer only.
\<close>

definition readUInt16LE :: "nat list \<Rightarrow> nat \<Rightarrow> nat" where
  "readUInt16LE buf off = buf ! off + 256 * buf ! (off + 1)"

definition readInt32LE :: "nat list \<Rightarrow> nat \<Rightarrow> int" where
  "readInt32LE buf off =
     (let u = int (buf ! off) + 256 * int (buf ! (off + 1)) + 65536 * int (buf ! (off + 2))
              + 16777216 * int (buf ! (off + 3))
      in if u \<ge> 2147483648 then u - 4294967296 else u)"

definition event_at :: "nat list \<Rightarrow> nat \<Rightarrow> input_event" where
  "event_at buf i =
     \<lparr>ev_type = readUInt16LE buf (i + 16), ev_code = readUInt16LE buf (i + 18),
      ev_value = readInt32LE buf (i + 20)\<rparr>"

function data_loop :: "EvdevReader \<Rightarrow> nat list \<Rightarrow> nat \<Rightarrow> bridge \<Rightarrow> bridge" where
  "data_loop rd buf i st =
     (if i + EVENT_SIZE \<le> length buf
      then data_loop rd buf (i + EVENT_SIZE) (handle_event rd (event_at buf i) st)
      else st)"
  by pat_completeness auto
termination
  by (relation "measure (\<lambda>(rd, buf, i, st). length buf - i)") (auto simp: EVENT_SIZE_def)

definition on_data :: "EvdevReader \<Rightarrow> nat list \<Rightarrow> bridge \<Rightarrow> bridge" where
  "on_data rd buf st = data_loop rd buf 0 st"

text \<open>The records of a buffer, in order; bytes after the last whole record are ignored.\<close>

definition records_of :: "nat list \<Rightarrow> input_event list" where
  "records_of buf = map (\<lambda>k. event_at buf (k * EVENT_SIZE)) [0 ..< length buf div EVENT_SIZE]"

definition stopEvdevReader :: "nat \<Rightarrow> bridge \<Rightarrow> bridge" where
  "stopEvdevReader k st =
     (let slot = pads st ! k;
          st1 = (case stream slot of
                   Some h \<Rightarrow>
                     st\<lparr>streams := (streams st)[h := (streams st ! h)\<lparr>destroyed := True\<rparr>],
                        pads := (pads st)[k := slot\<lparr>stream := None\<rparr>]\<rparr>
                 | None \<Rightarrow> st);
          slot1 = pads st1 ! k
      in st1\<lparr>pads := (pads st1)[k := slot1\<lparr>active := False, state := freshPadState\<rparr>]\<rparr>)"

definition startEvdevReader :: "os_env \<Rightarrow> nat \<Rightarrow> bridge \<Rightarrow> bridge" where
  "startEvdevReader env k st =
     (let slot = pads st ! k
      in case device slot of
           None \<Rightarrow> st
         | Some dev \<Rightarrow>
             if stream slot \<noteq> None then st
             else
               (let path = eventPath dev;
                    detected = detectAxisRanges env path;
                    rgs = (if length detected = 0 then getFallbackRanges (vendor dev)
                           else detected);
                    lay = detectAxisLayout dev;
                    h = length (streams st);
                    strm = \<lparr>devicePath = path, destroyed = False,
                            reader = \<lparr>padIndex = k, ranges = rgs, layout = lay\<rparr>\<rparr>
                in st\<lparr>streams := streams st @ [strm],
                      pads := (pads st)[k := slot\<lparr>axisRanges := rgs, state := freshPadState,
                                                 active := True, stream := Some h\<rparr>]\<rparr>))"

text \<open>The handlers of the events \<^verbatim>\<open>data\<close>, \<^verbatim>\<open>error\<close> and \<^verbatim>\<open>close\<close> of stream \<open>h\<close>.\<close>

definition stream_data :: "nat \<Rightarrow> nat list \<Rightarrow> bridge \<Rightarrow> bridge" where
  "stream_data h buf st = on_data (reader (streams st ! h)) buf st"

definition stream_error :: "nat \<Rightarrow> bridge \<Rightarrow> bridge" where
  "stream_error h st = stopEvdevReader (padIndex (reader (streams st ! h))) st"

definition stream_close :: "nat \<Rightarrow> bridge \<Rightarrow> bridge" where
  "stream_close h st =
     (let k = padIndex (reader (streams st ! h))
      in st\<lparr>pads := (pads st)[k := (pads st ! k)\<lparr>stream := None, active := False\<rparr>]\<rparr>)"

subsection \<open>Assigning and unassigning slots\<close>

datatype response = Response nat bool

definition clear_device :: "nat \<Rightarrow> bridge \<Rightarrow> bridge" where
  "clear_device i st = st\<lparr>pads := (pads st)[i := (pads st ! i)\<lparr>device := None\<rparr>]\<rparr>"

definition holds_path :: "string \<Rightarrow> PadSlot \<Rightarrow> bool" where
  "holds_path p slot = (case device slot of Some d \<Rightarrow> eventPath d = p | None \<Rightarrow> False)"

text \<open>The handler of \<^verbatim>\<open>POST /api/assign\<close>; the index comes from the request body.\<close>

definition api_assign :: "os_env \<Rightarrow> string \<Rightarrow> int \<Rightarrow> bridge \<Rightarrow> response \<times> bridge" where
  "api_assign env p idx st =
     (if idx < 0 \<or> idx > 3 then (Response 400 False, st)
      else case find (\<lambda>c. eventPath c = p) (controllers st) of
             None \<Rightarrow> (Response 404 False, st)
           | Some dev \<Rightarrow>
               (let k = nat idx;
                    st1 = foldl (\<lambda>s i. if holds_path p (pads s ! i)
                                        then clear_device i (stopEvdevReader i s) else s)
                            st [0 ..< 4];
                    st2 = (if device (pads st1 ! k) \<noteq> None then stopEvdevReader k st1 else st1);
                    st3 = st2\<lparr>pads := (pads st2)[k := (pads st2 ! k)\<lparr>device := Some dev\<rparr>]\<rparr>
                in (Response 200 True, startEvdevReader env k st3)))"

text \<open>The handler of \<^verbatim>\<open>POST /api/unassign\<close>.\<close>

definition api_unassign :: "int \<Rightarrow> bridge \<Rightarrow> response \<times> bridge" where
  "api_unassign idx st =
     (if idx < 0 \<or> idx > 3 then (Response 400 False, st)
      else (Response 200 True, clear_device (nat idx) (stopEvdevReader (nat idx) st)))"

text \<open>The periodic controller scan; \<open>detected\<close> is what \<^verbatim>\<open>detectControllers\<close> returns.\<close>

definition controller_scan :: "DetectedDevice list \<Rightarrow> bridge \<Rightarrow> bridge" where
  "controller_scan detected st =
     (let prev = controllers st;
          st0 = st\<lparr>controllers := detected\<rparr>;
          prevPaths = map eventPath prev;
          currPaths = map eventPath detected;
          changed = (length prev \<noteq> length detected
                     \<or> list_ex (\<lambda>p. p \<notin> set currPaths) prevPaths
                     \<or> list_ex (\<lambda>p. p \<notin> set prevPaths) currPaths)
      in if changed
         then foldl (\<lambda>s i. case device (pads s ! i) of
                              Some d \<Rightarrow> if eventPath d \<notin> set currPaths
                                        then clear_device i (stopEvdevReader i s) else s
                            | None \<Rightarrow> s)
                st0 [0 ..< 4]
         else st0)"

datatype slot_op = Assign os_env string int | Unassign int | Scan "DetectedDevice list"

fun apply_op :: "bridge \<Rightarrow> slot_op \<Rightarrow> bridge" where
  "apply_op st (Assign env p idx) = snd (api_assign env p idx st)"
| "apply_op st (Unassign idx) = snd (api_unassign idx st)"
| "apply_op st (Scan detected) = controller_scan detected st"

definition run_ops :: "slot_op list \<Rightarrow> bridge" where
  "run_ops ops = foldl apply_op init_state ops"

subsection \<open>Properties of a pad state and of the slots\<close>

definition channels_in_range :: "PadState \<Rightarrow> bool" where
  "channels_in_range s =
     (0 \<le> lx s \<and> lx s \<le> 255 \<and> 0 \<le> ly s \<and> ly s \<le> 255 \<and> 0 \<le> rx s \<and> rx s \<le> 255
      \<and> 0 \<le> ry s \<and> ry s \<le> 255 \<and> 0 \<le> l2 s \<and> l2 s \<le> 255 \<and> 0 \<le> r2 s \<and> r2 s \<le> 255)"

text \<open>The axis codes that \<open>abs_event\<close> writes to an analog channel.\<close>

definition analog_axes :: "nat list" where
  "analog_axes = [ABS_X, ABS_Y, ABS_Z, ABS_RX, ABS_RY, ABS_RZ, ABS_GAS, ABS_BRAKE]"

definition pad_updates :: "bridge \<Rightarrow> rpc_frame list" where
  "pad_updates st =
     (case ps4Connection st of
        None \<Rightarrow> []
      | Some c \<Rightarrow> (case ws c of None \<Rightarrow> [] | Some w \<Rightarrow> sent w))"

definition connected :: "bridge \<Rightarrow> bool" where
  "connected st =
     (case ps4Connection st of None \<Rightarrow> False | Some c \<Rightarrow> open_c c \<and> ws c \<noteq> None)"

text \<open>The pad state of the reader's slot, before and after one record.\<close>

definition pad_state :: "EvdevReader \<Rightarrow> bridge \<Rightarrow> PadState" where
  "pad_state rd st = state (pads st ! padIndex rd)"

definition pad_after :: "EvdevReader \<Rightarrow> input_event \<Rightarrow> bridge \<Rightarrow> PadState" where
  "pad_after rd e st = pad_state rd (handle_event rd e st)"

definition abs_record :: "nat \<Rightarrow> int \<Rightarrow> input_event" where
  "abs_record code v = \<lparr>ev_type = EV_ABS, ev_code = code, ev_value = v\<rparr>"

text \<open>What one record does to a pad state: only key and axis records change it.\<close>

definition pad_event ::
  "AxisLayout \<Rightarrow> (nat \<times> AxisRange) list \<Rightarrow> PadState \<Rightarrow> input_event \<Rightarrow> PadState" where
  "pad_event lay rgs s e =
     (if ev_type e = EV_KEY then key_event (ev_code e) (ev_value e) s
      else if ev_type e = EV_ABS then abs_event lay rgs (ev_code e) (ev_value e) s
      else s)"

text \<open>A run of data events on one stream.\<close>

definition on_data_all :: "EvdevReader \<Rightarrow> nat list list \<Rightarrow> bridge \<Rightarrow> bridge" where
  "on_data_all rd bufs st = foldl (\<lambda>s buf. on_data rd buf s) st bufs"

text \<open>Every analog-axis record has an entry for its code in the range map.\<close>

definition calibrated :: "(nat \<times> AxisRange) list \<Rightarrow> input_event \<Rightarrow> bool" where
  "calibrated rgs e =
     (ev_type e = EV_ABS \<and> ev_code e \<in> set analog_axes \<longrightarrow> map_of rgs (ev_code e) \<noteq> None)"

text \<open>The event path of the device a slot holds, and exclusive ownership of the paths.\<close>

definition slot_path :: "PadSlot \<Rightarrow> string option" where
  "slot_path slot = map_option eventPath (device slot)"

definition exclusive :: "bridge \<Rightarrow> bool" where
  "exclusive st =
     (length (pads st) = 4
      \<and> (\<forall>i\<in>{0 ..< 4}. \<forall>j\<in>{0 ..< 4}.
            i \<noteq> j \<and> slot_path (pads st ! i) \<noteq> None
            \<longrightarrow> slot_path (pads st ! i) \<noteq> slot_path (pads st ! j)))"

section \<open>Normalization\<close>

lemma double_zero: "double 0 = 0"
  by (simp add: double_def)

lemma double_one: "double 1 = 1"
  by code_simp

text \<open>Two values of binary64 arithmetic: the doubles nearest to 1/10 and to 1/3.\<close>

lemma double_tenth: "double (1 / 10) = 3602879701896397 / 36028797018963968"
  by code_simp

lemma double_third: "double (1 / 3) = 6004799503160661 / 18014398509481984"
  by code_simp

lemma double_255: "double 255 = 255"
  by code_simp

lemma Math_round_of_int: "Math_round (of_int n) = n"
  unfolding Math_round_def by (rule floor_unique) simp_all

lemma normalize_axis_range: "0 \<le> normalize_axis v r \<and> normalize_axis v r \<le> 255"
  by (simp add: normalize_axis_def)

lemma normalize_axis_min: "min_r r \<noteq> max_r r \<Longrightarrow> normalize_axis (min_r r) r = 0"
  by (simp add: normalize_axis_def double_zero Math_round_def)

lemma normalize_axis_max: "min_r r \<noteq> max_r r \<Longrightarrow> normalize_axis (max_r r) r = 255"
proof -
  assume ne: "min_r r \<noteq> max_r r"
  then have "(of_int (max_r r - min_r r) :: rat) \<noteq> 0" by simp
  then have q: "(of_int (max_r r - min_r r) :: rat) / of_int (max_r r - min_r r) = 1"
    by (rule divide_self)
  have "Math_round (double (double 1 * 255)) = 255"
    using Math_round_of_int [of 255] by (simp add: double_one double_255)
  with ne q show ?thesis
    by (simp add: normalize_axis_def)
qed

text \<open>
  Claim C2. For a range with \<open>min < max\<close>, every raw value between the bounds is
  normalized into 0..255, the minimum is normalized to 0 and the maximum to 255.
\<close>

theorem normalize_bounds:
  assumes "min_r r < max_r r"
  shows "(\<forall>v. min_r r \<le> v \<and> v \<le> max_r r
              \<longrightarrow> 0 \<le> normalize_axis v r \<and> normalize_axis v r \<le> 255)
         \<and> normalize_axis (min_r r) r = 0 \<and> normalize_axis (max_r r) r = 255"
  using assms normalize_axis_range normalize_axis_min [of r] normalize_axis_max [of r]
  by simp

theorem normalize_bounds_witness:
  "min_r \<lparr>min_r = - 32768, max_r = 32767\<rparr> < max_r \<lparr>min_r = - 32768, max_r = 32767\<rparr>
   \<and> 0 \<le> normalize_axis 1000 \<lparr>min_r = - 32768, max_r = 32767\<rparr>
   \<and> normalize_axis 1000 \<lparr>min_r = - 32768, max_r = 32767\<rparr> \<le> 255
   \<and> normalize_axis (- 32768) \<lparr>min_r = - 32768, max_r = 32767\<rparr> = 0
   \<and> normalize_axis 32767 \<lparr>min_r = - 32768, max_r = 32767\<rparr> = 255"
  using normalize_bounds [of "\<lparr>min_r = - 32768, max_r = 32767\<rparr>"]
  by simp

text \<open>
  Claim C10. \<open>normalize_axis\<close> is defined on every raw value and every range: a range
  whose maximum equals its minimum gives 128 without any division, and every result,
  also for raw values outside the range, lies in 0..255.
\<close>

theorem normalize_total:
  "(max_r r = min_r r \<longrightarrow> normalize_axis v r = 128)
   \<and> 0 \<le> normalize_axis v r \<and> normalize_axis v r \<le> 255"
  by (simp add: normalize_axis_def)

theorem normalize_total_witness:
  "max_r \<lparr>min_r = 7, max_r = 7\<rparr> = min_r \<lparr>min_r = 7, max_r = 7\<rparr>
   \<and> normalize_axis 100000 \<lparr>min_r = 7, max_r = 7\<rparr> = 128
   \<and> 0 \<le> normalize_axis (- 5) \<lparr>min_r = 0, max_r = 255\<rparr>
   \<and> normalize_axis 100000 \<lparr>min_r = 0, max_r = 255\<rparr> \<le> 255"
  using normalize_total [of "\<lparr>min_r = 7, max_r = 7\<rparr>" 100000]
    normalize_total [of "\<lparr>min_r = 0, max_r = 255\<rparr>" "- 5"]
    normalize_total [of "\<lparr>min_r = 0, max_r = 255\<rparr>" 100000]
  by simp

section \<open>Axis routing\<close>



lemma handle_event_length: "length (pads (handle_event rd e st)) = length (pads st)"
  by (simp add: handle_event_def Let_def)

lemma handle_event_state:
  "padIndex rd < length (pads st) \<Longrightarrow>
   state (pads (handle_event rd e st) ! padIndex rd) =
     (if ev_type e = EV_KEY then key_event (ev_code e) (ev_value e) (state (pads st ! padIndex rd))
      else if ev_type e = EV_ABS
      then abs_event (layout rd) (ranges rd) (ev_code e) (ev_value e) (state (pads st ! padIndex rd))
      else state (pads st ! padIndex rd))"
  by (simp add: handle_event_def Let_def)


lemma pad_after_abs:
  "padIndex rd < length (pads st) \<Longrightarrow>
   pad_after rd (abs_record code v) st = abs_event (layout rd) (ranges rd) code v (pad_state rd st)"
  by (simp add: pad_after_def pad_state_def abs_record_def handle_event_state EV_KEY_def EV_ABS_def)





lemma abs_event_BRAKE:
  "abs_event lay rgs ABS_BRAKE v s = set_l2 (axis_value (map_of rgs ABS_BRAKE) v) s"
  by (simp add: abs_event_def ABS_X_def ABS_Y_def ABS_Z_def ABS_RX_def ABS_RY_def ABS_RZ_def
      ABS_BRAKE_def)

lemma abs_event_GAS:
  "abs_event lay rgs ABS_GAS v s = set_r2 (axis_value (map_of rgs ABS_GAS) v) s"
  by (simp add: abs_event_def ABS_X_def ABS_Y_def ABS_Z_def ABS_RX_def ABS_RY_def ABS_RZ_def
      ABS_BRAKE_def ABS_GAS_def)

lemma set_r2_fields:
  "set_r2 x s = s\<lparr>r2 := x, buttons := (if 10 < x then buttons s OR ORBIS_R2
                                         else buttons s AND NOT ORBIS_R2)\<rparr>"
  by (simp add: set_r2_def)

lemma set_l2_fields:
  "set_l2 x s = s\<lparr>l2 := x, buttons := (if 10 < x then buttons s OR ORBIS_L2
                                         else buttons s AND NOT ORBIS_L2)\<rparr>"
  by (simp add: set_l2_def)





section \<open>The data handler\<close>

declare data_loop.simps [simp del]

lemma channels_in_range_fresh: "channels_in_range freshPadState"
  by (simp add: channels_in_range_def freshPadState_def)

lemma key_event_channels: "channels_in_range (key_event code v s) = channels_in_range s"
  by (simp add: key_event_def channels_in_range_def split: option.splits)

lemma axis_value_range:
  "r \<noteq> None \<Longrightarrow> 0 \<le> axis_value r v \<and> axis_value r v \<le> 255"
  using normalize_axis_range by (cases r) (simp_all add: axis_value_def)

lemma set_l2_channels:
  "0 \<le> x \<Longrightarrow> x \<le> 255 \<Longrightarrow> channels_in_range s \<Longrightarrow> channels_in_range (set_l2 x s)"
  by (simp add: set_l2_fields channels_in_range_def)

lemma set_r2_channels:
  "0 \<le> x \<Longrightarrow> x \<le> 255 \<Longrightarrow> channels_in_range s \<Longrightarrow> channels_in_range (set_r2 x s)"
  by (simp add: set_r2_fields channels_in_range_def)

lemma hat_channels:
  "channels_in_range (s\<lparr>buttons := b\<rparr>) = channels_in_range s"
  by (simp add: channels_in_range_def)

lemma stick_channels:
  "0 \<le> x \<Longrightarrow> x \<le> 255 \<Longrightarrow> channels_in_range s \<Longrightarrow>
   channels_in_range (s\<lparr>lx := x\<rparr>) \<and> channels_in_range (s\<lparr>ly := x\<rparr>)
   \<and> channels_in_range (s\<lparr>rx := x\<rparr>) \<and> channels_in_range (s\<lparr>ry := x\<rparr>)"
  by (simp add: channels_in_range_def)

lemmas abs_defs = ABS_X_def ABS_Y_def ABS_Z_def ABS_RX_def ABS_RY_def ABS_RZ_def ABS_GAS_def
  ABS_BRAKE_def ABS_HAT0X_def ABS_HAT0Y_def

lemma abs_event_X: "abs_event lay rgs ABS_X v s = s\<lparr>lx := axis_value (map_of rgs ABS_X) v\<rparr>"
  by (simp add: abs_event_def)

lemma abs_event_Y: "abs_event lay rgs ABS_Y v s = s\<lparr>ly := axis_value (map_of rgs ABS_Y) v\<rparr>"
  by (simp add: abs_event_def abs_defs)

lemma abs_event_RX: "abs_event lay rgs ABS_RX v s = s\<lparr>rx := axis_value (map_of rgs ABS_RX) v\<rparr>"
  by (simp add: abs_event_def abs_defs)

lemma abs_event_RY: "abs_event lay rgs ABS_RY v s = s\<lparr>ry := axis_value (map_of rgs ABS_RY) v\<rparr>"
  by (simp add: abs_event_def abs_defs)

lemma abs_event_Z:
  "abs_event lay rgs ABS_Z v s =
     (if lay = gas_brake then s\<lparr>rx := axis_value (map_of rgs ABS_Z) v\<rparr>
      else set_l2 (axis_value (map_of rgs ABS_Z) v) s)"
  by (simp add: abs_event_def abs_defs)

lemma abs_event_RZ:
  "abs_event lay rgs ABS_RZ v s =
     (if lay = gas_brake then s\<lparr>ry := axis_value (map_of rgs ABS_RZ) v\<rparr>
      else set_r2 (axis_value (map_of rgs ABS_RZ) v) s)"
  by (simp add: abs_event_def abs_defs)

lemma abs_event_other:
  "code \<notin> set analog_axes \<Longrightarrow> \<exists>b. abs_event lay rgs code v s = s\<lparr>buttons := b\<rparr>"
proof -
  assume "code \<notin> set analog_axes"
  then have ne: "code \<noteq> ABS_X" "code \<noteq> ABS_Y" "code \<noteq> ABS_Z" "code \<noteq> ABS_RX" "code \<noteq> ABS_RY"
    "code \<noteq> ABS_RZ" "code \<noteq> ABS_GAS" "code \<noteq> ABS_BRAKE"
    by (simp_all add: analog_axes_def)
  have id: "s = s\<lparr>buttons := buttons s\<rparr>" by simp
  show ?thesis
  proof (cases "code = ABS_HAT0X \<or> code = ABS_HAT0Y")
    case True
    with ne show ?thesis by (auto simp add: abs_event_def Let_def)
  next
    case False
    with ne have "abs_event lay rgs code v s = s" by (simp add: abs_event_def)
    with id show ?thesis by metis
  qed
qed

lemma abs_event_channels:
  assumes "channels_in_range s" and "code \<in> set analog_axes \<longrightarrow> map_of rgs code \<noteq> None"
  shows "channels_in_range (abs_event lay rgs code v s)"
proof (cases "code \<in> set analog_axes")
  case True
  with assms(2) have r: "0 \<le> axis_value (map_of rgs code) v"
    "axis_value (map_of rgs code) v \<le> 255"
    by (simp_all add: axis_value_range)
  from True consider "code = ABS_X" | "code = ABS_Y" | "code = ABS_Z" | "code = ABS_RX"
    | "code = ABS_RY" | "code = ABS_RZ" | "code = ABS_GAS" | "code = ABS_BRAKE"
    by (auto simp add: analog_axes_def)
  then show ?thesis
  proof cases
    case 1 with r assms(1) show ?thesis by (simp add: abs_event_X stick_channels)
  next
    case 2 with r assms(1) show ?thesis by (simp add: abs_event_Y stick_channels)
  next
    case 3 with r assms(1) show ?thesis by (simp add: abs_event_Z stick_channels set_l2_channels)
  next
    case 4 with r assms(1) show ?thesis by (simp add: abs_event_RX stick_channels)
  next
    case 5 with r assms(1) show ?thesis by (simp add: abs_event_RY stick_channels)
  next
    case 6 with r assms(1) show ?thesis by (simp add: abs_event_RZ stick_channels set_r2_channels)
  next
    case 7 with r assms(1) show ?thesis by (simp add: abs_event_GAS set_r2_channels)
  next
    case 8 with r assms(1) show ?thesis by (simp add: abs_event_BRAKE set_l2_channels)
  qed
next
  case False
  then obtain b where "abs_event lay rgs code v s = s\<lparr>buttons := b\<rparr>"
    using abs_event_other by blast
  with assms(1) show ?thesis by (simp add: hat_channels)
qed

lemma pad_event_channels:
  "channels_in_range s \<Longrightarrow> calibrated rgs e \<Longrightarrow> channels_in_range (pad_event lay rgs s e)"
  by (simp add: pad_event_def calibrated_def key_event_channels abs_event_channels)

lemma handle_event_pad_state:
  "padIndex rd < length (pads st) \<Longrightarrow>
   pad_state rd (handle_event rd e st) = pad_event (layout rd) (ranges rd) (pad_state rd st) e"
  by (simp add: pad_state_def pad_event_def handle_event_state)

lemma data_loop_records:
  "data_loop rd buf (k * EVENT_SIZE) st =
     foldl (\<lambda>s e. handle_event rd e s) st
       (map (\<lambda>j. event_at buf (j * EVENT_SIZE)) [k ..< length buf div EVENT_SIZE])"
proof (induction "length buf div EVENT_SIZE - k" arbitrary: k st)
  case 0
  then have "\<not> k * EVENT_SIZE + EVENT_SIZE \<le> length buf"
    by (simp add: EVENT_SIZE_def) 
  with 0 show ?case
    by (subst data_loop.simps) simp
next
  case (Suc n)
  then have lt: "k < length buf div EVENT_SIZE" by simp
  then have "k * EVENT_SIZE + EVENT_SIZE \<le> length buf"
    by (simp add: EVENT_SIZE_def)
  moreover have "n = length buf div EVENT_SIZE - Suc k" using Suc.hyps(2) by simp
  ultimately show ?case
    using Suc.hyps(1) [of "Suc k"] lt
    by (subst data_loop.simps) (simp add: upt_conv_Cons add.commute)
qed

lemma on_data_records:
  "on_data rd buf st = foldl (\<lambda>s e. handle_event rd e s) st (records_of buf)"
  using data_loop_records [of rd buf 0 st] by (simp add: on_data_def records_of_def)

lemma foldl_handle_event_length:
  "length (pads (foldl (\<lambda>s e. handle_event rd e s) st es)) = length (pads st)"
  by (induction es arbitrary: st) (simp_all add: handle_event_length)

lemma foldl_handle_event_pad_state:
  "padIndex rd < length (pads st) \<Longrightarrow>
   pad_state rd (foldl (\<lambda>s e. handle_event rd e s) st es)
     = foldl (pad_event (layout rd) (ranges rd)) (pad_state rd st) es"
  by (induction es arbitrary: st) (simp_all add: handle_event_length handle_event_pad_state)

lemma foldl_pad_event_channels:
  "channels_in_range s \<Longrightarrow> \<forall>e\<in>set es. calibrated rgs e \<Longrightarrow>
   channels_in_range (foldl (pad_event lay rgs) s es)"
  by (induction es arbitrary: s) (simp_all add: pad_event_channels)

lemma on_data_length: "length (pads (on_data rd buf st)) = length (pads st)"
  by (simp add: on_data_records foldl_handle_event_length)

lemma on_data_channels:
  "padIndex rd < length (pads st) \<Longrightarrow> channels_in_range (pad_state rd st) \<Longrightarrow>
   \<forall>e\<in>set (records_of buf). calibrated (ranges rd) e \<Longrightarrow>
   channels_in_range (pad_state rd (on_data rd buf st))"
  by (simp add: on_data_records foldl_handle_event_pad_state foldl_pad_event_channels)

lemma on_data_all_channels:
  "padIndex rd < length (pads st) \<Longrightarrow> channels_in_range (pad_state rd st) \<Longrightarrow>
   \<forall>buf\<in>set bufs. \<forall>e\<in>set (records_of buf). calibrated (ranges rd) e \<Longrightarrow>
   channels_in_range (pad_state rd (on_data_all rd bufs st))"
  unfolding on_data_all_def
  by (induction bufs arbitrary: st) (simp_all add: on_data_length on_data_channels)

lemma axis_value_None: "axis_value None v = v"
  by (simp add: axis_value_def)

text \<open>
  Claim C1, as the code has it. Start from the rest state of a slot (sticks at 128,
  triggers at 0) and process any run of buffers of evdev records. If every record of an
  analog axis has an entry for its code in the range map of the reader, each of the six
  analog channels of the slot stays within 0..255. A record of an analog axis whose code
  has no entry stores its raw value, unchanged, in the channel the code is routed to (a
  trigger also sets or clears its bit by the threshold 10 on that raw value).
\<close>

theorem channel_range_invariant:
  assumes "padIndex rd < length (pads st)"
  shows "(pad_state rd st = freshPadState
          \<and> (\<forall>buf\<in>set bufs. \<forall>e\<in>set (records_of buf). calibrated (ranges rd) e)
          \<longrightarrow> channels_in_range (pad_state rd (on_data_all rd bufs st)))
     \<and> freshPadState = \<lparr>buttons = 0, lx = 128, ly = 128, rx = 128, ry = 128, l2 = 0, r2 = 0\<rparr>
     \<and> (map_of (ranges rd) ABS_X = None
          \<longrightarrow> pad_after rd (abs_record ABS_X v) st = (pad_state rd st)\<lparr>lx := v\<rparr>)
     \<and> (map_of (ranges rd) ABS_Y = None
          \<longrightarrow> pad_after rd (abs_record ABS_Y v) st = (pad_state rd st)\<lparr>ly := v\<rparr>)
     \<and> (map_of (ranges rd) ABS_RX = None
          \<longrightarrow> pad_after rd (abs_record ABS_RX v) st = (pad_state rd st)\<lparr>rx := v\<rparr>)
     \<and> (map_of (ranges rd) ABS_RY = None
          \<longrightarrow> pad_after rd (abs_record ABS_RY v) st = (pad_state rd st)\<lparr>ry := v\<rparr>)
     \<and> (map_of (ranges rd) ABS_Z = None
          \<longrightarrow> pad_after rd (abs_record ABS_Z v) st
              = (if layout rd = gas_brake then (pad_state rd st)\<lparr>rx := v\<rparr>
                 else (pad_state rd st)
                        \<lparr>l2 := v,
                         buttons := (if 10 < v then buttons (pad_state rd st) OR ORBIS_L2
                                     else buttons (pad_state rd st) AND NOT ORBIS_L2)\<rparr>))
     \<and> (map_of (ranges rd) ABS_RZ = None
          \<longrightarrow> pad_after rd (abs_record ABS_RZ v) st
              = (if layout rd = gas_brake then (pad_state rd st)\<lparr>ry := v\<rparr>
                 else (pad_state rd st)
                        \<lparr>r2 := v,
                         buttons := (if 10 < v then buttons (pad_state rd st) OR ORBIS_R2
                                     else buttons (pad_state rd st) AND NOT ORBIS_R2)\<rparr>))
     \<and> (map_of (ranges rd) ABS_BRAKE = None
          \<longrightarrow> pad_after rd (abs_record ABS_BRAKE v) st
              = (pad_state rd st)
                  \<lparr>l2 := v,
                   buttons := (if 10 < v then buttons (pad_state rd st) OR ORBIS_L2
                               else buttons (pad_state rd st) AND NOT ORBIS_L2)\<rparr>)
     \<and> (map_of (ranges rd) ABS_GAS = None
          \<longrightarrow> pad_after rd (abs_record ABS_GAS v) st
              = (pad_state rd st)
                  \<lparr>r2 := v,
                   buttons := (if 10 < v then buttons (pad_state rd st) OR ORBIS_R2
                               else buttons (pad_state rd st) AND NOT ORBIS_R2)\<rparr>)"
proof -
  have bounded: "channels_in_range (pad_state rd (on_data_all rd bufs st))"
    if "pad_state rd st = freshPadState"
      and cal: "\<forall>buf\<in>set bufs. \<forall>e\<in>set (records_of buf). calibrated (ranges rd) e"
  proof -
    have "channels_in_range (pad_state rd st)"
      using that(1) channels_in_range_fresh by simp
    with assms show ?thesis
      using cal by (rule on_data_all_channels)
  qed
  have raw: "map_of (ranges rd) code = None \<Longrightarrow>
      pad_after rd (abs_record code v) st
        = abs_event (layout rd) [] code v (pad_state rd st)" for code
    using assms by (simp add: pad_after_abs abs_event_def)
  have sticks: "abs_event (layout rd) [] ABS_X v (pad_state rd st) = (pad_state rd st)\<lparr>lx := v\<rparr>"
    "abs_event (layout rd) [] ABS_Y v (pad_state rd st) = (pad_state rd st)\<lparr>ly := v\<rparr>"
    "abs_event (layout rd) [] ABS_RX v (pad_state rd st) = (pad_state rd st)\<lparr>rx := v\<rparr>"
    "abs_event (layout rd) [] ABS_RY v (pad_state rd st) = (pad_state rd st)\<lparr>ry := v\<rparr>"
    by (simp_all add: abs_event_X abs_event_Y abs_event_RX abs_event_RY axis_value_None)
  have triggers:
    "abs_event (layout rd) [] ABS_Z v (pad_state rd st)
       = (if layout rd = gas_brake then (pad_state rd st)\<lparr>rx := v\<rparr>
          else (pad_state rd st)
                 \<lparr>l2 := v,
                  buttons := (if 10 < v then buttons (pad_state rd st) OR ORBIS_L2
                              else buttons (pad_state rd st) AND NOT ORBIS_L2)\<rparr>)"
    "abs_event (layout rd) [] ABS_RZ v (pad_state rd st)
       = (if layout rd = gas_brake then (pad_state rd st)\<lparr>ry := v\<rparr>
          else (pad_state rd st)
                 \<lparr>r2 := v,
                  buttons := (if 10 < v then buttons (pad_state rd st) OR ORBIS_R2
                              else buttons (pad_state rd st) AND NOT ORBIS_R2)\<rparr>)"
    "abs_event (layout rd) [] ABS_BRAKE v (pad_state rd st)
       = (pad_state rd st)
           \<lparr>l2 := v,
            buttons := (if 10 < v then buttons (pad_state rd st) OR ORBIS_L2
                        else buttons (pad_state rd st) AND NOT ORBIS_L2)\<rparr>"
    "abs_event (layout rd) [] ABS_GAS v (pad_state rd st)
       = (pad_state rd st)
           \<lparr>r2 := v,
            buttons := (if 10 < v then buttons (pad_state rd st) OR ORBIS_R2
                        else buttons (pad_state rd st) AND NOT ORBIS_R2)\<rparr>"
    by (simp_all add: abs_event_Z abs_event_RZ abs_event_BRAKE abs_event_GAS axis_value_None
        set_l2_fields set_r2_fields)
  have fresh: "freshPadState
      = \<lparr>buttons = 0, lx = 128, ly = 128, rx = 128, ry = 128, l2 = 0, r2 = 0\<rparr>"
    by (simp add: freshPadState_def)
  show ?thesis
    using bounded fresh raw [of ABS_X] raw [of ABS_Y] raw [of ABS_RX] raw [of ABS_RY]
      raw [of ABS_Z] raw [of ABS_RZ] raw [of ABS_BRAKE] raw [of ABS_GAS]
    by (simp only: sticks triggers) blast
qed

theorem channel_range_invariant_witness:
  "padIndex \<lparr>padIndex = 0, ranges = getFallbackRanges ''045e'', layout = standard\<rparr>
     < length (pads init_state)
   \<and> pad_state \<lparr>padIndex = 0, ranges = getFallbackRanges ''045e'', layout = standard\<rparr> init_state
     = freshPadState
   \<and> channels_in_range
       (pad_state \<lparr>padIndex = 0, ranges = getFallbackRanges ''045e'', layout = standard\<rparr>
          (on_data_all \<lparr>padIndex = 0, ranges = getFallbackRanges ''045e'', layout = standard\<rparr>
             [replicate 16 0 @ [3, 0, 0, 0, 255, 127, 0, 0]
              @ replicate 16 0 @ [0, 0, 0, 0, 0, 0, 0, 0]] init_state))
   \<and> map_of (getFallbackRanges ''045e'') ABS_GAS = None
   \<and> r2 (pad_after \<lparr>padIndex = 0, ranges = getFallbackRanges ''045e'', layout = standard\<rparr>
           (abs_record ABS_GAS 1023) init_state) = 1023"
proof -
  let ?rd = "\<lparr>padIndex = 0, ranges = getFallbackRanges ''045e'', layout = standard\<rparr>"
  let ?bufs = "[replicate 16 0 @ [3, 0, 0, 0, 255, 127, 0, 0]
                @ replicate 16 0 @ [0, 0, 0, 0, 0, 0, 0, 0]]"
  have h1: "padIndex ?rd < length (pads init_state)"
    by (simp add: init_state_def)
  have h2: "pad_state ?rd init_state = freshPadState"
    by (simp add: pad_state_def init_state_def empty_slot_def)
  have h3: "\<forall>buf\<in>set ?bufs. \<forall>e\<in>set (records_of buf). calibrated (ranges ?rd) e"
    by code_simp
  have h4: "map_of (getFallbackRanges ''045e'') ABS_GAS = None"
    by code_simp
  then have h5: "map_of (ranges ?rd) ABS_GAS = None"
    by simp
  note t = channel_range_invariant [OF h1, where bufs = ?bufs and v = 1023]
  from t h2 h3 have a: "channels_in_range (pad_state ?rd (on_data_all ?rd ?bufs init_state))"
    by blast
  from t h5 have "pad_after ?rd (abs_record ABS_GAS 1023) init_state
      = (pad_state ?rd init_state)
          \<lparr>r2 := 1023,
           buttons := (if (10::int) < 1023 then buttons (pad_state ?rd init_state) OR ORBIS_R2
                       else buttons (pad_state ?rd init_state) AND NOT ORBIS_R2)\<rparr>"
    by blast
  then have b: "r2 (pad_after ?rd (abs_record ABS_GAS 1023) init_state) = 1023"
    by simp
  from h1 h2 a h4 b show ?thesis
    by blast
qed

text \<open>
  The claim as stated also covers codes without an entry in the range map. A device of
  the gas/brake layout for which the ioctl library does not load gets the fallback ranges, which
  have no entry for \<open>ABS_GAS\<close>: a gas record of 1023 puts 1023 in the right trigger.
\<close>

theorem channel_range_counterexample:
  "r2 (state (pads (stream_data 0 (replicate 16 0 @ [3, 0, 9, 0, 255, 3, 0, 0])
        (run_ops [Scan [\<lparr>name = ''GameSir-G8'', eventPath = ''/dev/input/event5'',
                         vendor = ''3537'', product = ''1001'', uniq = ''A'', bus = ''0005'',
                         absCaps = 0x30627\<rparr>],
                  Assign \<lparr>openSync_ok = (\<lambda>p. True), ffi_ok = False,
                          ioctl_EVIOCGABS = (\<lambda>p a. None)\<rparr> ''/dev/input/event5'' 0])) ! 0))
     = 1023
   \<and> \<not> channels_in_range
        (state (pads (stream_data 0 (replicate 16 0 @ [3, 0, 9, 0, 255, 3, 0, 0])
          (run_ops [Scan [\<lparr>name = ''GameSir-G8'', eventPath = ''/dev/input/event5'',
                           vendor = ''3537'', product = ''1001'', uniq = ''A'', bus = ''0005'',
                           absCaps = 0x30627\<rparr>],
                    Assign \<lparr>openSync_ok = (\<lambda>p. True), ffi_ok = False,
                            ioctl_EVIOCGABS = (\<lambda>p a. None)\<rparr> ''/dev/input/event5'' 0])) ! 0))"
  by code_simp





section \<open>Synchronization records\<close>

lemma handle_event_other:
  "ev_type e \<noteq> EV_SYN \<Longrightarrow>
   msgCount (handle_event rd e st) = msgCount st
   \<and> ps4Connection (handle_event rd e st) = ps4Connection st"
  by (simp add: handle_event_def Let_def)

lemma foldl_handle_event_other:
  "\<forall>e\<in>set es. ev_type e \<noteq> EV_SYN \<Longrightarrow>
   msgCount (foldl (\<lambda>s e. handle_event rd e s) st es) = msgCount st
   \<and> ps4Connection (foldl (\<lambda>s e. handle_event rd e s) st es) = ps4Connection st"
  by (induction es arbitrary: st) (simp_all add: handle_event_other)

lemma handle_event_syn:
  "ev_type e = EV_SYN \<Longrightarrow>
   handle_event rd e st =
     st\<lparr>ps4Connection := map_option (send (pad_state rd st) (padIndex rd)) (ps4Connection st),
        msgCount := msgCount st + 1\<rparr>"
  by (simp add: handle_event_def Let_def pad_state_def EV_SYN_def EV_KEY_def EV_ABS_def)

lemma pad_updates_send:
  "pad_updates (st\<lparr>ps4Connection := map_option (send s k) (ps4Connection st), msgCount := m\<rparr>)
   = pad_updates st @ (if connected st then [update_frame k s] else [])"
  by (simp add: pad_updates_def connected_def send_def split: option.splits)

lemma pad_updates_cong:
  "ps4Connection st = ps4Connection st' \<Longrightarrow>
   pad_updates st = pad_updates st' \<and> connected st = connected st'"
  by (simp add: pad_updates_def connected_def)

text \<open>
  Claim C6, as the code has it. Let a buffer hold records none of which is a
  synchronization record, followed by one synchronization record (of any code). The data
  handler then increments the message counter exactly once, and it sends at most one pad
  update: exactly one, carrying the pad state after all the preceding records, when a
  console connection exists and is open, and none otherwise. No update is sent for an
  intermediate record.
\<close>

theorem sync_boundary:
  assumes "padIndex rd < length (pads st)" and "records_of buf = es @ [syn]"
    and "ev_type syn = EV_SYN" and "\<forall>e\<in>set es. ev_type e \<noteq> EV_SYN"
  shows "msgCount (on_data rd buf st) = msgCount st + 1
     \<and> pad_state rd (on_data rd buf st)
       = foldl (pad_event (layout rd) (ranges rd)) (pad_state rd st) es
     \<and> pad_updates (on_data rd buf st)
       = pad_updates st
         @ (if connected st then [update_frame (padIndex rd) (pad_state rd (on_data rd buf st))]
            else [])"
proof -
  define mid where "mid = foldl (\<lambda>s e. handle_event rd e s) st es"
  have run: "on_data rd buf st = handle_event rd syn mid"
    by (simp add: on_data_records assms(2) mid_def)
  have keep: "msgCount mid = msgCount st" "ps4Connection mid = ps4Connection st"
    using foldl_handle_event_other [OF assms(4), of rd st] by (simp_all add: mid_def)
  have mid_state: "pad_state rd mid = foldl (pad_event (layout rd) (ranges rd)) (pad_state rd st) es"
    using assms(1) by (simp add: mid_def foldl_handle_event_pad_state)
  have len: "padIndex rd < length (pads mid)"
    using assms(1) by (simp add: mid_def foldl_handle_event_length)
  have last_state: "pad_state rd (handle_event rd syn mid) = pad_state rd mid"
    using len assms(3) by (simp add: handle_event_pad_state pad_event_def EV_SYN_def EV_KEY_def EV_ABS_def)
  have count: "msgCount (handle_event rd syn mid) = msgCount mid + 1"
    using assms(3) by (simp add: handle_event_syn)
  have frames: "pad_updates (handle_event rd syn mid)
      = pad_updates mid @ (if connected mid then [update_frame (padIndex rd) (pad_state rd mid)] else [])"
    using assms(3) by (simp add: handle_event_syn pad_updates_send)
  from pad_updates_cong [OF keep(2)] have same: "pad_updates mid = pad_updates st"
    "connected mid = connected st" by simp_all
  show ?thesis
    by (simp add: run count keep(1) last_state mid_state frames same)
qed

theorem sync_boundary_witness:
  "msgCount (on_data \<lparr>padIndex = 0, ranges = getFallbackRanges ''045e'', layout = standard\<rparr>
      (replicate 16 0 @ [1, 0, 48, 1, 1, 0, 0, 0] @ replicate 16 0 @ [3, 0, 0, 0, 255, 127, 0, 0]
       @ replicate 16 0 @ [0, 0, 0, 0, 0, 0, 0, 0])
      (init_state\<lparr>ps4Connection := Some (ws_open (createPS4Connection False))\<rparr>)) = 1
   \<and> pad_updates (on_data \<lparr>padIndex = 0, ranges = getFallbackRanges ''045e'', layout = standard\<rparr>
      (replicate 16 0 @ [1, 0, 48, 1, 1, 0, 0, 0] @ replicate 16 0 @ [3, 0, 0, 0, 255, 127, 0, 0]
       @ replicate 16 0 @ [0, 0, 0, 0, 0, 0, 0, 0])
      (init_state\<lparr>ps4Connection := Some (ws_open (createPS4Connection False))\<rparr>))
     = [PadUpdate [0, 16384, 255, 128, 128, 128, 0, 0, 0]]"
proof -
  let ?rd = "\<lparr>padIndex = 0, ranges = getFallbackRanges ''045e'', layout = standard\<rparr>"
  let ?buf = "replicate 16 0 @ [1, 0, 48, 1, 1, 0, 0, 0] @ replicate 16 0
              @ [3, 0, 0, 0, 255, 127, 0, 0] @ replicate 16 0 @ [0, 0, 0, 0, 0, 0, 0, 0]"
  let ?st = "init_state\<lparr>ps4Connection := Some (ws_open (createPS4Connection False))\<rparr>"
  let ?es = "[\<lparr>ev_type = 1, ev_code = 304, ev_value = 1\<rparr>,
              \<lparr>ev_type = 3, ev_code = 0, ev_value = 32767\<rparr>]"
  let ?syn = "\<lparr>ev_type = 0, ev_code = 0, ev_value = 0\<rparr>"
  have h1: "padIndex ?rd < length (pads ?st)"
    by (simp add: init_state_def)
  have h2: "records_of ?buf = ?es @ [?syn]"
    by code_simp
  have h3: "ev_type ?syn = EV_SYN"
    by (simp add: EV_SYN_def)
  have h4: "\<forall>e\<in>set ?es. ev_type e \<noteq> EV_SYN"
    by (simp add: EV_SYN_def)
  have v1: "connected ?st" by code_simp
  have v2: "pad_updates ?st = []" by code_simp
  have v3: "update_frame (padIndex ?rd)
              (foldl (pad_event (layout ?rd) (ranges ?rd)) (pad_state ?rd ?st) ?es)
            = PadUpdate [0, 16384, 255, 128, 128, 128, 0, 0, 0]"
    by code_simp
  have v4: "msgCount ?st = 0" by (simp add: init_state_def)
  show ?thesis
    using sync_boundary [OF h1 h2 h3 h4] v1 v2 v3 v4 by simp
qed

text \<open>
  The claim as stated promises one push in every case. Before any connection to the
  console exists, a key record followed by a synchronization record sends nothing, while
  the message counter still goes up by one.
\<close>

theorem sync_boundary_counterexample:
  "pad_updates (stream_data 0
      (replicate 16 0 @ [1, 0, 48, 1, 1, 0, 0, 0] @ replicate 16 0 @ [0, 0, 0, 0, 0, 0, 0, 0])
      (run_ops [Scan [\<lparr>name = ''Xbox Wireless Controller'', eventPath = ''/dev/input/event7'',
                       vendor = ''045e'', product = ''0b13'', uniq = ''A'', bus = ''0005'',
                       absCaps = 0x3003f\<rparr>],
                Assign \<lparr>openSync_ok = (\<lambda>p. True), ffi_ok = False,
                        ioctl_EVIOCGABS = (\<lambda>p a. None)\<rparr> ''/dev/input/event7'' 0])) = []
   \<and> msgCount (stream_data 0
      (replicate 16 0 @ [1, 0, 48, 1, 1, 0, 0, 0] @ replicate 16 0 @ [0, 0, 0, 0, 0, 0, 0, 0])
      (run_ops [Scan [\<lparr>name = ''Xbox Wireless Controller'', eventPath = ''/dev/input/event7'',
                       vendor = ''045e'', product = ''0b13'', uniq = ''A'', bus = ''0005'',
                       absCaps = 0x3003f\<rparr>],
                Assign \<lparr>openSync_ok = (\<lambda>p. True), ffi_ok = False,
                        ioctl_EVIOCGABS = (\<lambda>p a. None)\<rparr> ''/dev/input/event7'' 0])) = 1"
  by code_simp


section \<open>Stopping a reader\<close>

lemma stopEvdevReader_length: "length (pads (stopEvdevReader k st)) = length (pads st)"
  by (simp add: stopEvdevReader_def Let_def split: option.splits)

lemma stopEvdevReader_slot:
  "k < length (pads st) \<Longrightarrow>
   pads (stopEvdevReader k st) ! k
     = (pads st ! k)\<lparr>stream := None, active := False, state := freshPadState\<rparr>"
  by (cases "stream (pads st ! k)") (simp_all add: stopEvdevReader_def Let_def)

lemma stopEvdevReader_other:
  "i \<noteq> k \<Longrightarrow> pads (stopEvdevReader k st) ! i = pads st ! i"
  by (simp add: stopEvdevReader_def Let_def split: option.splits)

lemma stopEvdevReader_destroyed:
  "k < length (pads st) \<Longrightarrow> stream (pads st ! k) = Some h \<Longrightarrow> h < length (streams st) \<Longrightarrow>
   destroyed (streams (stopEvdevReader k st) ! h)"
  by (simp add: stopEvdevReader_def Let_def)

lemma stopEvdevReader_stopped:
  "k < length (pads st) \<Longrightarrow> stream (pads st ! k) = None \<Longrightarrow> \<not> active (pads st ! k) \<Longrightarrow>
   state (pads st ! k) = freshPadState \<Longrightarrow> stopEvdevReader k st = st"
  by (simp add: stopEvdevReader_def Let_def list_update_same_conv)

lemma stopEvdevReader_idem:
  "k < length (pads st) \<Longrightarrow> stopEvdevReader k (stopEvdevReader k st) = stopEvdevReader k st"
  by (rule stopEvdevReader_stopped)
     (simp_all add: stopEvdevReader_length stopEvdevReader_slot)

text \<open>
  Claim C8. The error handler of a stream is \<open>stopEvdevReader\<close> on the slot of its
  reader. When the failing stream is the one the slot holds, it is destroyed and the
  slot's handle cleared, the slot is marked inactive, and its pad state is back at the
  rest values: sticks at 128, triggers and buttons at 0.
\<close>

theorem stream_error_cleanup:
  assumes "h < length (streams st)" and "padIndex (reader (streams st ! h)) = k"
    and "k < length (pads st)" and "stream (pads st ! k) = Some h"
  shows "stream_error h st = stopEvdevReader k st
     \<and> destroyed (streams (stream_error h st) ! h)
     \<and> stream (pads (stream_error h st) ! k) = None
     \<and> \<not> active (pads (stream_error h st) ! k)
     \<and> state (pads (stream_error h st) ! k)
       = \<lparr>buttons = 0, lx = 128, ly = 128, rx = 128, ry = 128, l2 = 0, r2 = 0\<rparr>"
  using assms
  by (simp add: stream_error_def stopEvdevReader_slot stopEvdevReader_destroyed freshPadState_def)

theorem stream_error_cleanup_witness:
  "lx (state (pads (stream_data 0 (replicate 16 0 @ [3, 0, 0, 0, 255, 127, 0, 0])
        (run_ops [Scan [\<lparr>name = ''Xbox Wireless Controller'', eventPath = ''/dev/input/event7'',
                         vendor = ''045e'', product = ''0b13'', uniq = ''A'', bus = ''0005'',
                         absCaps = 0x3003f\<rparr>],
                  Assign \<lparr>openSync_ok = (\<lambda>p. True), ffi_ok = False,
                          ioctl_EVIOCGABS = (\<lambda>p a. None)\<rparr> ''/dev/input/event7'' 0])) ! 0)) = 255
   \<and> state (pads (stream_error 0 (stream_data 0 (replicate 16 0 @ [3, 0, 0, 0, 255, 127, 0, 0])
        (run_ops [Scan [\<lparr>name = ''Xbox Wireless Controller'', eventPath = ''/dev/input/event7'',
                         vendor = ''045e'', product = ''0b13'', uniq = ''A'', bus = ''0005'',
                         absCaps = 0x3003f\<rparr>],
                  Assign \<lparr>openSync_ok = (\<lambda>p. True), ffi_ok = False,
                          ioctl_EVIOCGABS = (\<lambda>p a. None)\<rparr> ''/dev/input/event7'' 0]))) ! 0)
     = \<lparr>buttons = 0, lx = 128, ly = 128, rx = 128, ry = 128, l2 = 0, r2 = 0\<rparr>
   \<and> \<not> active (pads (stream_error 0 (stream_data 0 (replicate 16 0 @ [3, 0, 0, 0, 255, 127, 0, 0])
        (run_ops [Scan [\<lparr>name = ''Xbox Wireless Controller'', eventPath = ''/dev/input/event7'',
                         vendor = ''045e'', product = ''0b13'', uniq = ''A'', bus = ''0005'',
                         absCaps = 0x3003f\<rparr>],
                  Assign \<lparr>openSync_ok = (\<lambda>p. True), ffi_ok = False,
                          ioctl_EVIOCGABS = (\<lambda>p a. None)\<rparr> ''/dev/input/event7'' 0]))) ! 0)"
proof -
  let ?st = "stream_data 0 (replicate 16 0 @ [3, 0, 0, 0, 255, 127, 0, 0])
        (run_ops [Scan [\<lparr>name = ''Xbox Wireless Controller'', eventPath = ''/dev/input/event7'',
                         vendor = ''045e'', product = ''0b13'', uniq = ''A'', bus = ''0005'',
                         absCaps = 0x3003f\<rparr>],
                  Assign \<lparr>openSync_ok = (\<lambda>p. True), ffi_ok = False,
                          ioctl_EVIOCGABS = (\<lambda>p a. None)\<rparr> ''/dev/input/event7'' 0])"
  have h1: "0 < length (streams ?st)" by code_simp
  have h2: "padIndex (reader (streams ?st ! 0)) = 0" by code_simp
  have h3: "0 < length (pads ?st)" by code_simp
  have h4: "stream (pads ?st ! 0) = Some 0" by code_simp
  have v: "lx (state (pads ?st ! 0)) = 255" by code_simp
  from stream_error_cleanup [OF h1 h2 h3 h4]
  have c: "\<not> active (pads (stream_error 0 ?st) ! 0)"
    and d: "state (pads (stream_error 0 ?st) ! 0)
            = \<lparr>buttons = 0, lx = 128, ly = 128, rx = 128, ry = 128, l2 = 0, r2 = 0\<rparr>"
    by blast+
  show ?thesis
    using v c d by simp
qed

lemma clear_device_same:
  "k < length (pads st) \<Longrightarrow> device (pads st ! k) = None \<Longrightarrow> clear_device k st = st"
  by (simp add: clear_device_def list_update_same_conv)

lemma clear_device_length: "length (pads (clear_device k st)) = length (pads st)"
  by (simp add: clear_device_def)

lemma clear_device_slot:
  "k < length (pads st) \<Longrightarrow> pads (clear_device k st) ! k = (pads st ! k)\<lparr>device := None\<rparr>"
  by (simp add: clear_device_def)

lemma clear_device_other: "i \<noteq> k \<Longrightarrow> pads (clear_device k st) ! i = pads st ! i"
  by (simp add: clear_device_def)

lemma unassign_slot:
  "k < length (pads st) \<Longrightarrow>
   pads (clear_device k (stopEvdevReader k st)) ! k
     = \<lparr>device = None, state = freshPadState, stream = None,
        axisRanges = axisRanges (pads st ! k), active = False\<rparr>"
  by (simp add: clear_device_slot stopEvdevReader_length stopEvdevReader_slot)

lemma unassign_idem:
  assumes "k < length (pads st)"
  shows "clear_device k (stopEvdevReader k (clear_device k (stopEvdevReader k st)))
         = clear_device k (stopEvdevReader k st)"
proof -
  let ?u = "clear_device k (stopEvdevReader k st)"
  have len: "k < length (pads ?u)"
    using assms by (simp add: clear_device_length stopEvdevReader_length)
  have slot: "pads ?u ! k = \<lparr>device = None, state = freshPadState, stream = None,
        axisRanges = axisRanges (pads st ! k), active = False\<rparr>"
    using assms by (rule unassign_slot)
  have "stopEvdevReader k ?u = ?u"
    using len by (rule stopEvdevReader_stopped) (simp_all add: slot)
  moreover have "clear_device k ?u = ?u"
    using len by (rule clear_device_same) (simp add: slot)
  ultimately show ?thesis by simp
qed

text \<open>
  Claim C9. Stopping a slot twice gives the same state as stopping it once, so a stop
  on a stopped slot changes nothing; unassigning twice gives the same state as
  unassigning once; and after an unassign with a valid index the slot has no stream
  handle, is inactive, has the rest pad state and no device.
\<close>

theorem idempotent_stop:
  assumes "length (pads st) = 4"
  shows "(\<forall>k<4. stopEvdevReader k (stopEvdevReader k st) = stopEvdevReader k st
            \<and> pads (stopEvdevReader k st) ! k
              = (pads st ! k)\<lparr>stream := None, active := False, state := freshPadState\<rparr>)
     \<and> snd (api_unassign idx (snd (api_unassign idx st))) = snd (api_unassign idx st)
     \<and> (0 \<le> idx \<and> idx \<le> 3 \<longrightarrow>
          pads (snd (api_unassign idx st)) ! nat idx
            = \<lparr>device = None, state = freshPadState, stream = None,
               axisRanges = axisRanges (pads st ! nat idx), active = False\<rparr>)"
proof -
  have stop: "\<forall>k<4. stopEvdevReader k (stopEvdevReader k st) = stopEvdevReader k st
            \<and> pads (stopEvdevReader k st) ! k
              = (pads st ! k)\<lparr>stream := None, active := False, state := freshPadState\<rparr>"
    using assms by (simp add: stopEvdevReader_idem stopEvdevReader_slot)
  have twice: "snd (api_unassign idx (snd (api_unassign idx st))) = snd (api_unassign idx st)"
  proof (cases "idx < 0 \<or> idx > 3")
    case True
    then show ?thesis by (simp add: api_unassign_def)
  next
    case False
    then have "nat idx < 4" by arith
    then have "nat idx < length (pads st)" using assms by simp
    then show ?thesis using False by (simp add: api_unassign_def unassign_idem)
  qed
  have slot: "pads (snd (api_unassign idx st)) ! nat idx
            = \<lparr>device = None, state = freshPadState, stream = None,
               axisRanges = axisRanges (pads st ! nat idx), active = False\<rparr>"
    if "0 \<le> idx \<and> idx \<le> 3"
  proof -
    from that have "nat idx < 4" and range: "\<not> (idx < 0 \<or> idx > 3)" by arith+
    then have "nat idx < length (pads st)" using assms by simp
    with range show ?thesis by (simp add: api_unassign_def unassign_slot)
  qed
  from stop twice slot show ?thesis by blast
qed

theorem idempotent_stop_witness:
  "active (pads (run_ops
      [Scan [\<lparr>name = ''Xbox Wireless Controller'', eventPath = ''/dev/input/event7'',
              vendor = ''045e'', product = ''0b13'', uniq = ''A'', bus = ''0005'',
              absCaps = 0x3003f\<rparr>],
       Assign \<lparr>openSync_ok = (\<lambda>p. True), ffi_ok = False, ioctl_EVIOCGABS = (\<lambda>p a. None)\<rparr>
         ''/dev/input/event7'' 0]) ! 0)
   \<and> snd (api_unassign 0 (snd (api_unassign 0 (run_ops
      [Scan [\<lparr>name = ''Xbox Wireless Controller'', eventPath = ''/dev/input/event7'',
              vendor = ''045e'', product = ''0b13'', uniq = ''A'', bus = ''0005'',
              absCaps = 0x3003f\<rparr>],
       Assign \<lparr>openSync_ok = (\<lambda>p. True), ffi_ok = False, ioctl_EVIOCGABS = (\<lambda>p a. None)\<rparr>
         ''/dev/input/event7'' 0]))))
     = snd (api_unassign 0 (run_ops
      [Scan [\<lparr>name = ''Xbox Wireless Controller'', eventPath = ''/dev/input/event7'',
              vendor = ''045e'', product = ''0b13'', uniq = ''A'', bus = ''0005'',
              absCaps = 0x3003f\<rparr>],
       Assign \<lparr>openSync_ok = (\<lambda>p. True), ffi_ok = False, ioctl_EVIOCGABS = (\<lambda>p a. None)\<rparr>
         ''/dev/input/event7'' 0]))
   \<and> active (pads (snd (api_unassign 0 (run_ops
      [Scan [\<lparr>name = ''Xbox Wireless Controller'', eventPath = ''/dev/input/event7'',
              vendor = ''045e'', product = ''0b13'', uniq = ''A'', bus = ''0005'',
              absCaps = 0x3003f\<rparr>],
       Assign \<lparr>openSync_ok = (\<lambda>p. True), ffi_ok = False, ioctl_EVIOCGABS = (\<lambda>p a. None)\<rparr>
         ''/dev/input/event7'' 0]))) ! 0) = False
   \<and> device (pads (snd (api_unassign 0 (run_ops
      [Scan [\<lparr>name = ''Xbox Wireless Controller'', eventPath = ''/dev/input/event7'',
              vendor = ''045e'', product = ''0b13'', uniq = ''A'', bus = ''0005'',
              absCaps = 0x3003f\<rparr>],
       Assign \<lparr>openSync_ok = (\<lambda>p. True), ffi_ok = False, ioctl_EVIOCGABS = (\<lambda>p a. None)\<rparr>
         ''/dev/input/event7'' 0]))) ! 0) = None"
proof -
  let ?st = "run_ops
      [Scan [\<lparr>name = ''Xbox Wireless Controller'', eventPath = ''/dev/input/event7'',
              vendor = ''045e'', product = ''0b13'', uniq = ''A'', bus = ''0005'',
              absCaps = 0x3003f\<rparr>],
       Assign \<lparr>openSync_ok = (\<lambda>p. True), ffi_ok = False, ioctl_EVIOCGABS = (\<lambda>p a. None)\<rparr>
         ''/dev/input/event7'' 0]"
  have h: "length (pads ?st) = 4" by code_simp
  have v: "active (pads ?st ! 0)" by code_simp
  from idempotent_stop [OF h, of 0]
  have a: "snd (api_unassign 0 (snd (api_unassign 0 ?st))) = snd (api_unassign 0 ?st)"
    and b: "pads (snd (api_unassign 0 ?st)) ! nat 0
            = \<lparr>device = None, state = freshPadState, stream = None,
               axisRanges = axisRanges (pads ?st ! nat 0), active = False\<rparr>"
    by simp_all
  from b have "active (pads (snd (api_unassign 0 ?st)) ! 0) = False"
    "device (pads (snd (api_unassign 0 ?st)) ! 0) = None"
    by simp_all
  with v a show ?thesis by blast
qed

section \<open>Exclusive slot ownership\<close>

lemma stopEvdevReader_device:
  "k < length (pads st) \<Longrightarrow> device (pads (stopEvdevReader k st) ! i) = device (pads st ! i)"
  by (cases "i = k") (simp_all add: stopEvdevReader_slot stopEvdevReader_other)

lemma startEvdevReader_length: "length (pads (startEvdevReader env k st)) = length (pads st)"
  by (simp add: startEvdevReader_def Let_def split: option.splits)

lemma startEvdevReader_device:
  "k < length (pads st) \<Longrightarrow> device (pads (startEvdevReader env k st) ! i) = device (pads st ! i)"
  by (cases "i = k") (simp_all add: startEvdevReader_def Let_def split: option.splits)

lemma vacate_device:
  "i < length (pads s) \<Longrightarrow>
   length (pads (clear_device i (stopEvdevReader i s))) = length (pads s)
   \<and> (\<forall>j. device (pads (clear_device i (stopEvdevReader i s)) ! j)
           = (if j = i then None else device (pads s ! j)))"
  by (simp add: clear_device_length stopEvdevReader_length clear_device_slot clear_device_other
      stopEvdevReader_device)

lemma foldl_vacate:
  assumes step: "\<And>s i. i < length (pads s) \<Longrightarrow>
      length (pads (g s i)) = length (pads s)
      \<and> (\<forall>j. device (pads (g s i) ! j)
              = (if j = i \<and> P (device (pads s ! i)) then None else device (pads s ! j)))"
  shows "n \<le> length (pads st) \<Longrightarrow>
     length (pads (foldl g st [0 ..< n])) = length (pads st)
     \<and> (\<forall>j. device (pads (foldl g st [0 ..< n]) ! j)
             = (if j < n \<and> P (device (pads st ! j)) then None else device (pads st ! j)))"
proof (induction n)
  case 0
  then show ?case by simp
next
  case (Suc n)
  let ?x = "foldl g st [0 ..< n]"
  from Suc have ih: "length (pads ?x) = length (pads st)"
    "\<And>j. device (pads ?x ! j)
          = (if j < n \<and> P (device (pads st ! j)) then None else device (pads st ! j))"
    by simp_all
  from Suc.prems ih(1) have "n < length (pads ?x)" by simp
  from step [OF this] have st: "length (pads (g ?x n)) = length (pads ?x)"
    "\<And>j. device (pads (g ?x n) ! j)
          = (if j = n \<and> P (device (pads ?x ! n)) then None else device (pads ?x ! j))"
    by simp_all
  have "foldl g st [0 ..< Suc n] = g ?x n" by simp
  then show ?case
    using st ih by (auto simp add: less_Suc_eq)
qed

lemma assign_loop:
  assumes "length (pads st) = 4"
  shows "length (pads (foldl (\<lambda>s i. if holds_path p (pads s ! i)
                                     then clear_device i (stopEvdevReader i s) else s)
                         st [0 ..< 4])) = 4
     \<and> (\<forall>j. device (pads (foldl (\<lambda>s i. if holds_path p (pads s ! i)
                                         then clear_device i (stopEvdevReader i s) else s)
                             st [0 ..< 4]) ! j)
             = (if j < 4 \<and> holds_path p (pads st ! j) then None else device (pads st ! j)))"
proof -
  let ?P = "\<lambda>d. case d of Some x \<Rightarrow> eventPath x = p | None \<Rightarrow> False"
  let ?g = "\<lambda>s i. if holds_path p (pads s ! i) then clear_device i (stopEvdevReader i s) else s"
  have step: "\<And>s i. i < length (pads s) \<Longrightarrow>
      length (pads (?g s i)) = length (pads s)
      \<and> (\<forall>j. device (pads (?g s i) ! j)
              = (if j = i \<and> ?P (device (pads s ! i)) then None else device (pads s ! j)))"
    using vacate_device by (simp add: holds_path_def)
  have "4 \<le> length (pads st)" using assms by simp
  from foldl_vacate [of ?g ?P, OF step this] assms show ?thesis
    by (simp add: holds_path_def)
qed

lemma scan_loop:
  assumes "length (pads st) = 4"
  shows "length (pads (foldl (\<lambda>s i. case device (pads s ! i) of
                               Some d \<Rightarrow> if eventPath d \<notin> set cur
                                         then clear_device i (stopEvdevReader i s) else s
                             | None \<Rightarrow> s)
                         st [0 ..< 4])) = 4
     \<and> (\<forall>j. device (pads (foldl (\<lambda>s i. case device (pads s ! i) of
                               Some d \<Rightarrow> if eventPath d \<notin> set cur
                                         then clear_device i (stopEvdevReader i s) else s
                             | None \<Rightarrow> s)
                             st [0 ..< 4]) ! j) = None
             \<or> device (pads (foldl (\<lambda>s i. case device (pads s ! i) of
                               Some d \<Rightarrow> if eventPath d \<notin> set cur
                                         then clear_device i (stopEvdevReader i s) else s
                             | None \<Rightarrow> s)
                             st [0 ..< 4]) ! j) = device (pads st ! j))"
proof -
  let ?P = "\<lambda>d. case d of Some x \<Rightarrow> eventPath x \<notin> set cur | None \<Rightarrow> False"
  let ?g = "\<lambda>s i. case device (pads s ! i) of
                               Some d \<Rightarrow> if eventPath d \<notin> set cur
                                         then clear_device i (stopEvdevReader i s) else s
                             | None \<Rightarrow> s"
  have step: "\<And>s i. i < length (pads s) \<Longrightarrow>
      length (pads (?g s i)) = length (pads s)
      \<and> (\<forall>j. device (pads (?g s i) ! j)
              = (if j = i \<and> ?P (device (pads s ! i)) then None else device (pads s ! j)))"
    using vacate_device by (simp split: option.splits)
  have "4 \<le> length (pads st)" using assms by simp
  from foldl_vacate [of ?g ?P, OF step this] assms show ?thesis
    by simp
qed

lemma api_assign_devices:
  assumes len: "length (pads st) = 4" and ok: "fst (api_assign env p idx st) = Response 200 True"
  shows "\<exists>dev. eventPath dev = p \<and> 0 \<le> idx \<and> idx \<le> 3
     \<and> length (pads (snd (api_assign env p idx st))) = 4
     \<and> (\<forall>j<4. device (pads (snd (api_assign env p idx st)) ! j)
             = (if j = nat idx then Some dev
                else if holds_path p (pads st ! j) then None else device (pads st ! j)))"
proof -
  from ok have range: "\<not> (idx < 0 \<or> idx > 3)"
    by (auto simp add: api_assign_def)
  then have k: "nat idx < 4" by arith
  from ok range obtain dev where f: "find (\<lambda>c. eventPath c = p) (controllers st) = Some dev"
    by (cases "find (\<lambda>c. eventPath c = p) (controllers st)") (auto simp add: api_assign_def)
  then have path: "eventPath dev = p"
    by (auto simp add: find_Some_iff)
  define st1 where "st1 = foldl (\<lambda>s i. if holds_path p (pads s ! i)
                           then clear_device i (stopEvdevReader i s) else s) st [0 ..< 4]"
  define st2 where
    "st2 = (if device (pads st1 ! nat idx) \<noteq> None then stopEvdevReader (nat idx) st1 else st1)"
  define st3 where
    "st3 = st2\<lparr>pads := (pads st2)[nat idx := (pads st2 ! nat idx)\<lparr>device := Some dev\<rparr>]\<rparr>"
  define st4 where "st4 = startEvdevReader env (nat idx) st3"
  have res: "snd (api_assign env p idx st) = st4"
    using range f by (simp add: api_assign_def Let_def st1_def st2_def st3_def st4_def)
  from assign_loop [OF len, of p] have l1: "length (pads st1) = 4"
    and d1: "\<And>j. device (pads st1 ! j)
               = (if j < 4 \<and> holds_path p (pads st ! j) then None else device (pads st ! j))"
    unfolding st1_def by blast+
  have l2: "length (pads st2) = 4"
    using l1 by (simp add: st2_def stopEvdevReader_length)
  have d2: "\<And>j. device (pads st2 ! j) = device (pads st1 ! j)"
    using l1 k by (simp add: st2_def stopEvdevReader_device)
  have l3: "length (pads st3) = 4"
    using l2 by (simp add: st3_def)
  have d3: "\<And>j. j < 4 \<Longrightarrow> device (pads st3 ! j)
               = (if j = nat idx then Some dev else device (pads st2 ! j))"
    using l2 k by (simp add: st3_def nth_list_update)
  have l4: "length (pads st4) = 4"
    using l3 by (simp add: st4_def startEvdevReader_length)
  have d4: "\<And>j. device (pads st4 ! j) = device (pads st3 ! j)"
    using l3 k by (simp add: st4_def startEvdevReader_device)
  have "\<forall>j<4. device (pads st4 ! j)
             = (if j = nat idx then Some dev
                else if holds_path p (pads st ! j) then None else device (pads st ! j))"
    by (simp add: d4 d3 d2 d1)
  with path range l4 res show ?thesis
    by auto
qed

lemma exclusive_init: "exclusive init_state"
proof -
  have none: "device (pads init_state ! i) = None" if "i < 4" for i
  proof -
    from that consider "i = 0" | "i = 1" | "i = 2" | "i = 3" by arith
    then show ?thesis by cases (simp_all add: init_state_def empty_slot_def)
  qed
  have len: "length (pads init_state) = 4" by (simp add: init_state_def)
  show ?thesis using none len by (simp add: exclusive_def slot_path_def)
qed

lemma api_assign_failed:
  "fst (api_assign env p idx st) \<noteq> Response 200 True \<Longrightarrow> snd (api_assign env p idx st) = st"
  by (auto simp add: api_assign_def Let_def split: option.splits if_splits)

lemma api_assign_exclusive:
  assumes "exclusive st"
  shows "exclusive (snd (api_assign env p idx st))"
proof (cases "fst (api_assign env p idx st) = Response 200 True")
  case False
  with assms show ?thesis by (simp add: api_assign_failed)
next
  case True
  from assms have len: "length (pads st) = 4" by (simp add: exclusive_def)
  from api_assign_devices [OF len True] obtain dev where path: "eventPath dev = p"
    and l: "length (pads (snd (api_assign env p idx st))) = 4"
    and d: "\<And>j. j < 4 \<Longrightarrow> device (pads (snd (api_assign env p idx st)) ! j)
             = (if j = nat idx then Some dev
                else if holds_path p (pads st ! j) then None else device (pads st ! j))"
    by blast
  from assms have old: "\<And>i j. i < 4 \<Longrightarrow> j < 4 \<Longrightarrow> i \<noteq> j \<Longrightarrow> slot_path (pads st ! i) \<noteq> None \<Longrightarrow>
      slot_path (pads st ! i) \<noteq> slot_path (pads st ! j)"
    by (simp add: exclusive_def)
  have "slot_path (pads (snd (api_assign env p idx st)) ! i)
        \<noteq> slot_path (pads (snd (api_assign env p idx st)) ! j)"
    if "i < 4" "j < 4" "i \<noteq> j" "slot_path (pads (snd (api_assign env p idx st)) ! i) \<noteq> None"
    for i j
    using that old [of i j] path
    by (auto simp add: slot_path_def d holds_path_def split: if_splits option.splits)
  with l show ?thesis
    by (simp add: exclusive_def)
qed

lemma api_unassign_exclusive:
  assumes "exclusive st"
  shows "exclusive (snd (api_unassign idx st))"
proof (cases "idx < 0 \<or> idx > 3")
  case True
  with assms show ?thesis by (simp add: api_unassign_def)
next
  case False
  then have k: "nat idx < 4" by arith
  from assms have len: "length (pads st) = 4" by (simp add: exclusive_def)
  from k len vacate_device [of "nat idx" st]
  have l: "length (pads (clear_device (nat idx) (stopEvdevReader (nat idx) st))) = 4"
    and d: "\<And>j. device (pads (clear_device (nat idx) (stopEvdevReader (nat idx) st)) ! j)
             = (if j = nat idx then None else device (pads st ! j))"
    by simp_all
  from assms have old: "\<And>i j. i < 4 \<Longrightarrow> j < 4 \<Longrightarrow> i \<noteq> j \<Longrightarrow> slot_path (pads st ! i) \<noteq> None \<Longrightarrow>
      slot_path (pads st ! i) \<noteq> slot_path (pads st ! j)"
    by (simp add: exclusive_def)
  have "slot_path (pads (clear_device (nat idx) (stopEvdevReader (nat idx) st)) ! i)
        \<noteq> slot_path (pads (clear_device (nat idx) (stopEvdevReader (nat idx) st)) ! j)"
    if "i < 4" "j < 4" "i \<noteq> j"
      "slot_path (pads (clear_device (nat idx) (stopEvdevReader (nat idx) st)) ! i) \<noteq> None"
    for i j
    using that old [of i j]
    by (auto simp add: slot_path_def d split: if_splits)
  with l False show ?thesis
    by (simp add: exclusive_def api_unassign_def)
qed

lemma controller_scan_exclusive:
  assumes "exclusive st"
  shows "exclusive (controller_scan detected st)"
proof -
  from assms have len: "length (pads (st\<lparr>controllers := detected\<rparr>)) = 4"
    by (simp add: exclusive_def)
  from assms have old: "\<And>i j. i < 4 \<Longrightarrow> j < 4 \<Longrightarrow> i \<noteq> j \<Longrightarrow> slot_path (pads st ! i) \<noteq> None \<Longrightarrow>
      slot_path (pads st ! i) \<noteq> slot_path (pads st ! j)"
    by (simp add: exclusive_def)
  define st' where "st' = foldl (\<lambda>s i. case device (pads s ! i) of
                              Some d \<Rightarrow> if eventPath d \<notin> set (map eventPath detected)
                                        then clear_device i (stopEvdevReader i s) else s
                            | None \<Rightarrow> s)
                (st\<lparr>controllers := detected\<rparr>) [0 ..< 4]"
  from scan_loop [OF len, of "map eventPath detected"]
  have l: "length (pads st') = 4"
    and d: "\<And>j. device (pads st' ! j) = None \<or> device (pads st' ! j) = device (pads st ! j)"
    unfolding st'_def by simp_all
  have "slot_path (pads st' ! i) \<noteq> slot_path (pads st' ! j)"
    if "i < 4" "j < 4" "i \<noteq> j" "slot_path (pads st' ! i) \<noteq> None" for i j
    using that old [of i j] d [of i] d [of j]
    by (auto simp add: slot_path_def)
  with l have new: "exclusive st'"
    by (simp add: exclusive_def)
  have same: "exclusive (st\<lparr>controllers := detected\<rparr>)"
    using assms by (simp add: exclusive_def)
  show ?thesis
    using new same by (simp add: controller_scan_def Let_def st'_def)
qed

lemma apply_op_exclusive: "exclusive st \<Longrightarrow> exclusive (apply_op st op)"
  by (cases op) (simp_all add: api_assign_exclusive api_unassign_exclusive controller_scan_exclusive)

lemma foldl_apply_op_exclusive: "exclusive st \<Longrightarrow> exclusive (foldl apply_op st ops)"
  by (induction ops arbitrary: st) (simp_all add: apply_op_exclusive)

lemma run_ops_exclusive: "exclusive (run_ops ops)"
  by (simp add: run_ops_def foldl_apply_op_exclusive exclusive_init)

text \<open>
  Claim C5. After any sequence of assign, unassign and scan operations from the initial
  state with four empty slots, no two distinct slots hold devices with the same event
  path. A successful assign leaves the device in the target slot and in no other slot:
  a slot that held it before is vacated.
\<close>

theorem exclusive_ownership:
  "(\<forall>i<4. \<forall>j<4. i \<noteq> j \<and> device (pads (run_ops ops) ! i) \<noteq> None
       \<longrightarrow> map_option eventPath (device (pads (run_ops ops) ! i))
           \<noteq> map_option eventPath (device (pads (run_ops ops) ! j)))
   \<and> (fst (api_assign env p idx (run_ops ops)) = Response 200 True
       \<longrightarrow> holds_path p (pads (snd (api_assign env p idx (run_ops ops))) ! nat idx)
          \<and> (\<forall>i<4. i \<noteq> nat idx
                \<longrightarrow> \<not> holds_path p (pads (snd (api_assign env p idx (run_ops ops))) ! i)))"
proof (intro conjI impI)
  show "\<forall>i<4. \<forall>j<4. i \<noteq> j \<and> device (pads (run_ops ops) ! i) \<noteq> None
       \<longrightarrow> map_option eventPath (device (pads (run_ops ops) ! i))
           \<noteq> map_option eventPath (device (pads (run_ops ops) ! j))"
    using run_ops_exclusive [of ops] by (simp add: exclusive_def slot_path_def)
next
  assume ok: "fst (api_assign env p idx (run_ops ops)) = Response 200 True"
  have len: "length (pads (run_ops ops)) = 4"
    using run_ops_exclusive [of ops] by (simp add: exclusive_def)
  from api_assign_devices [OF len ok] obtain dev where path: "eventPath dev = p"
    and range: "0 \<le> idx" "idx \<le> 3"
    and d: "\<And>j. j < 4 \<Longrightarrow> device (pads (snd (api_assign env p idx (run_ops ops))) ! j)
             = (if j = nat idx then Some dev
                else if holds_path p (pads (run_ops ops) ! j) then None
                     else device (pads (run_ops ops) ! j))"
    by blast
  from range have k: "nat idx < 4" by arith
  show "holds_path p (pads (snd (api_assign env p idx (run_ops ops))) ! nat idx)"
    using d [OF k] path by (simp add: holds_path_def)
  show "\<forall>i<4. i \<noteq> nat idx
          \<longrightarrow> \<not> holds_path p (pads (snd (api_assign env p idx (run_ops ops))) ! i)"
    using d by (auto simp add: holds_path_def split: option.splits)
qed

theorem exclusive_ownership_witness:
  "device (pads (run_ops
      [Scan [\<lparr>name = ''Xbox Wireless Controller'', eventPath = ''/dev/input/event7'',
              vendor = ''045e'', product = ''0b13'', uniq = ''A'', bus = ''0005'',
              absCaps = 0x3003f\<rparr>,
             \<lparr>name = ''GameSir-G8'', eventPath = ''/dev/input/event5'', vendor = ''3537'',
              product = ''1001'', uniq = ''B'', bus = ''0005'', absCaps = 0x30627\<rparr>],
       Assign \<lparr>openSync_ok = (\<lambda>p. True), ffi_ok = False, ioctl_EVIOCGABS = (\<lambda>p a. None)\<rparr>
         ''/dev/input/event7'' 0,
       Assign \<lparr>openSync_ok = (\<lambda>p. True), ffi_ok = False, ioctl_EVIOCGABS = (\<lambda>p a. None)\<rparr>
         ''/dev/input/event5'' 1,
       Assign \<lparr>openSync_ok = (\<lambda>p. True), ffi_ok = False, ioctl_EVIOCGABS = (\<lambda>p a. None)\<rparr>
         ''/dev/input/event7'' 2]) ! 0) = None
   \<and> map_option eventPath (device (pads (run_ops
      [Scan [\<lparr>name = ''Xbox Wireless Controller'', eventPath = ''/dev/input/event7'',
              vendor = ''045e'', product = ''0b13'', uniq = ''A'', bus = ''0005'',
              absCaps = 0x3003f\<rparr>,
             \<lparr>name = ''GameSir-G8'', eventPath = ''/dev/input/event5'', vendor = ''3537'',
              product = ''1001'', uniq = ''B'', bus = ''0005'', absCaps = 0x30627\<rparr>],
       Assign \<lparr>openSync_ok = (\<lambda>p. True), ffi_ok = False, ioctl_EVIOCGABS = (\<lambda>p a. None)\<rparr>
         ''/dev/input/event7'' 0,
       Assign \<lparr>openSync_ok = (\<lambda>p. True), ffi_ok = False, ioctl_EVIOCGABS = (\<lambda>p a. None)\<rparr>
         ''/dev/input/event5'' 1,
       Assign \<lparr>openSync_ok = (\<lambda>p. True), ffi_ok = False, ioctl_EVIOCGABS = (\<lambda>p a. None)\<rparr>
         ''/dev/input/event7'' 2]) ! 1)) = Some ''/dev/input/event5''
   \<and> map_option eventPath (device (pads (run_ops
      [Scan [\<lparr>name = ''Xbox Wireless Controller'', eventPath = ''/dev/input/event7'',
              vendor = ''045e'', product = ''0b13'', uniq = ''A'', bus = ''0005'',
              absCaps = 0x3003f\<rparr>,
             \<lparr>name = ''GameSir-G8'', eventPath = ''/dev/input/event5'', vendor = ''3537'',
              product = ''1001'', uniq = ''B'', bus = ''0005'', absCaps = 0x30627\<rparr>],
       Assign \<lparr>openSync_ok = (\<lambda>p. True), ffi_ok = False, ioctl_EVIOCGABS = (\<lambda>p a. None)\<rparr>
         ''/dev/input/event7'' 0,
       Assign \<lparr>openSync_ok = (\<lambda>p. True), ffi_ok = False, ioctl_EVIOCGABS = (\<lambda>p a. None)\<rparr>
         ''/dev/input/event5'' 1,
       Assign \<lparr>openSync_ok = (\<lambda>p. True), ffi_ok = False, ioctl_EVIOCGABS = (\<lambda>p a. None)\<rparr>
         ''/dev/input/event7'' 2]) ! 1))
     \<noteq> map_option eventPath (device (pads (run_ops
      [Scan [\<lparr>name = ''Xbox Wireless Controller'', eventPath = ''/dev/input/event7'',
              vendor = ''045e'', product = ''0b13'', uniq = ''A'', bus = ''0005'',
              absCaps = 0x3003f\<rparr>,
             \<lparr>name = ''GameSir-G8'', eventPath = ''/dev/input/event5'', vendor = ''3537'',
              product = ''1001'', uniq = ''B'', bus = ''0005'', absCaps = 0x30627\<rparr>],
       Assign \<lparr>openSync_ok = (\<lambda>p. True), ffi_ok = False, ioctl_EVIOCGABS = (\<lambda>p a. None)\<rparr>
         ''/dev/input/event7'' 0,
       Assign \<lparr>openSync_ok = (\<lambda>p. True), ffi_ok = False, ioctl_EVIOCGABS = (\<lambda>p a. None)\<rparr>
         ''/dev/input/event5'' 1,
       Assign \<lparr>openSync_ok = (\<lambda>p. True), ffi_ok = False, ioctl_EVIOCGABS = (\<lambda>p a. None)\<rparr>
         ''/dev/input/event7'' 2]) ! 2))"
proof -
  let ?env = "\<lparr>openSync_ok = (\<lambda>p. True), ffi_ok = False, ioctl_EVIOCGABS = (\<lambda>p a. None)\<rparr>"
  let ?ops = "[Scan [\<lparr>name = ''Xbox Wireless Controller'', eventPath = ''/dev/input/event7'',
              vendor = ''045e'', product = ''0b13'', uniq = ''A'', bus = ''0005'',
              absCaps = 0x3003f\<rparr>,
             \<lparr>name = ''GameSir-G8'', eventPath = ''/dev/input/event5'', vendor = ''3537'',
              product = ''1001'', uniq = ''B'', bus = ''0005'', absCaps = 0x30627\<rparr>],
       Assign ?env ''/dev/input/event7'' 0, Assign ?env ''/dev/input/event5'' 1,
       Assign ?env ''/dev/input/event7'' 2]"
  have v0: "device (pads (run_ops ?ops) ! 0) = None" by code_simp
  have v1: "map_option eventPath (device (pads (run_ops ?ops) ! 1)) = Some ''/dev/input/event5''"
    by code_simp
  then have h: "(1::nat) \<noteq> 2 \<and> device (pads (run_ops ?ops) ! 1) \<noteq> None" by auto
  from exclusive_ownership [of ?ops] h
  have "map_option eventPath (device (pads (run_ops ?ops) ! 1))
        \<noteq> map_option eventPath (device (pads (run_ops ?ops) ! 2))"
    by simp
  with v0 v1 show ?thesis by blast
qed

section \<open>The console connection\<close>

lemma close_flag: "intentionallyClosed (close c)"
  by (simp add: close_def Let_def)

lemma close_connects: "connects (close c) = connects c"
  by (simp add: close_def Let_def)

lemma conn_step_closed:
  "intentionallyClosed c \<Longrightarrow>
   intentionallyClosed (conn_step c e) \<and> connects (conn_step c e) = connects c"
  by (cases e)
     (simp_all add: ws_open_def ws_close_def reconnect_timeout_def send_def close_def
        scheduleReconnect_def Let_def split: option.splits)

lemma conn_run_closed:
  "intentionallyClosed c \<Longrightarrow>
   intentionallyClosed (conn_run c es) \<and> connects (conn_run c es) = connects c"
  unfolding conn_run_def
  by (induction es arbitrary: c) (simp_all add: conn_step_closed)

text \<open>A pending timeout always has its handle stored in \<open>reconnectTimer\<close>.\<close>

lemma conn_step_timer:
  "timer_pending c \<longrightarrow> reconnectTimer c \<Longrightarrow>
   timer_pending (conn_step c e) \<longrightarrow> reconnectTimer (conn_step c e)"
  by (cases e)
     (auto simp add: ws_open_def ws_close_def reconnect_timeout_def send_def close_def
        scheduleReconnect_def connect_def Let_def split: option.splits)

lemma conn_run_timer:
  "timer_pending c \<longrightarrow> reconnectTimer c \<Longrightarrow>
   timer_pending (conn_run c es) \<longrightarrow> reconnectTimer (conn_run c es)"
  unfolding conn_run_def
proof (induction es arbitrary: c)
  case Nil
  then show ?case by simp
next
  case (Cons e es)
  from conn_step_timer [OF Cons.prems, of e] show ?case
    by (simp add: Cons.IH)
qed

lemma created_timer:
  "timer_pending (conn_run (createPS4Connection throws) es)
   \<longrightarrow> reconnectTimer (conn_run (createPS4Connection throws) es)"
  by (rule conn_run_timer)
     (simp add: createPS4Connection_def connect_def scheduleReconnect_def Let_def)

lemma conn_step_no_timer:
  "intentionallyClosed c \<Longrightarrow> \<not> timer_pending c \<Longrightarrow> \<not> timer_pending (conn_step c e)"
  by (cases e)
     (auto simp add: ws_open_def ws_close_def reconnect_timeout_def send_def close_def
        scheduleReconnect_def Let_def split: option.splits)

lemma conn_run_no_timer:
  "intentionallyClosed c \<Longrightarrow> \<not> timer_pending c \<Longrightarrow> \<not> timer_pending (conn_run c es)"
  unfolding conn_run_def
  by (induction es arbitrary: c) (simp_all add: conn_step_no_timer conn_step_closed)

lemma close_cancels: "timer_pending c \<longrightarrow> reconnectTimer c \<Longrightarrow> \<not> timer_pending (close c)"
  by (auto simp add: close_def Let_def)

text \<open>Without a call of \<open>close\<close> the timeout does reconnect.\<close>

lemma reconnect_happens:
  "connects (conn_run (createPS4Connection False) [WsOpen, WsClose, ReconnectTimeout False]) = 2"
  by (simp add: conn_run_def createPS4Connection_def connect_def ws_open_def ws_close_def
      reconnect_timeout_def scheduleReconnect_def Let_def)

text \<open>
  Claim C7. Once \<open>close\<close> has been called on a connection, whatever happens to it
  afterwards (socket events, the reconnect timeout, further calls), the flag stays set
  and \<open>connect\<close> is never called again: the number of connection attempts stays what
  it was. A timeout that was pending at the call is cancelled, and none is set later.
\<close>

theorem reconnect_suppression:
  "intentionallyClosed (conn_run (close c) es)
   \<and> connects (conn_run (close c) es) = connects c
   \<and> ((timer_pending c \<longrightarrow> reconnectTimer c) \<longrightarrow> \<not> timer_pending (conn_run (close c) es))"
  using conn_run_closed [OF close_flag, of c es] conn_run_no_timer [OF close_flag, of c es]
    close_cancels [of c]
  by (simp add: close_connects)

theorem reconnect_suppression_witness:
  "timer_pending (conn_run (createPS4Connection False) [WsOpen, WsClose])
   \<and> connects (conn_run (createPS4Connection False) [WsOpen, WsClose]) = 1
   \<and> connects (conn_run (close (conn_run (createPS4Connection False) [WsOpen, WsClose]))
        [ReconnectTimeout False, WsClose, ReconnectTimeout False]) = 1"
proof -
  have a: "timer_pending (conn_run (createPS4Connection False) [WsOpen, WsClose])"
    and b: "connects (conn_run (createPS4Connection False) [WsOpen, WsClose]) = 1"
    by (simp_all add: conn_run_def createPS4Connection_def connect_def ws_open_def ws_close_def
        scheduleReconnect_def Let_def)
  from reconnect_suppression [of "conn_run (createPS4Connection False) [WsOpen, WsClose]"
      "[ReconnectTimeout False, WsClose, ReconnectTimeout False]"] b
  have "connects (conn_run (close (conn_run (createPS4Connection False) [WsOpen, WsClose]))
        [ReconnectTimeout False, WsClose, ReconnectTimeout False]) = 1"
    by simp
  with a b show ?thesis by blast
qed

end
